theory Spec2Isabelle
  imports Main "HOL-Library.Sublist" "HOL-Library.Char_ord" "HOL-Library.List_Lexorder"
    "HOL-Library.AList"
begin

section \<open>Values, errors and observable events\<close>

text \<open>
  The two programs \<^verbatim>\<open>v1main.go\<close> and \<^verbatim>\<open>v3main.go\<close> drive one order through the OVH
  API. Every response is decoded into \<^verbatim>\<open>map[string]interface{}\<close>; the dynamic values
  held by such a map are modelled by \<open>dyn\<close>. A \<^verbatim>\<open>json.Number\<close> is a Go string type that
  holds the text of a number, hence \<open>GNumber\<close> carries a string. \<open>GInt\<close> stands for
  the Go integers (\<^verbatim>\<open>int\<close>, \<^verbatim>\<open>int64\<close>) that the programs put into request bodies.
\<close>

datatype dyn =
    GNil
  | GBool bool
  | GNumber string
  | GString string
  | GInt int
  | GSlice "dyn list"
  | GMap "(string \<times> dyn) list"

type_synonym gomap = "(string \<times> dyn) list"

text \<open>Indexing a Go map with a missing key yields the zero value, a nil interface.\<close>

definition map_index :: "gomap \<Rightarrow> string \<Rightarrow> dyn" where
  "map_index m k = (case map_of m k of None \<Rightarrow> GNil | Some v \<Rightarrow> v)"

datatype numerr = ErrSyntax | ErrRange

text \<open>
  \<open>ClientError\<close> is an error returned by the OVH client (its text is opaque),
  \<open>NumError f s e\<close> is \<^verbatim>\<open>*strconv.NumError{Func: f, Num: s, Err: e}\<close>.
\<close>

datatype err = ClientError string | NumError string string numerr

datatype arg = AStr string | AInt int | AErr err | AVal dyn

datatype verb = POST | GET

text \<open>
  What a run does, in order: remote calls, messages on the standard output
  (\<^verbatim>\<open>fmt.Printf\<close>, \<^verbatim>\<open>fmt.Println\<close>), messages of the logger (\<^verbatim>\<open>log.Printf\<close>) and
  sleeps (in nanoseconds, the unit of \<^verbatim>\<open>time.Duration\<close>). Messages are kept as the
  format string with its arguments, as the source passes them.
\<close>

datatype event =
    Call verb string dyn
  | Printf string "arg list"
  | Println string
  | LogPrintf string "arg list"
  | Sleep int

text \<open>
  A run ends by returning from \<^verbatim>\<open>main\<close>, by \<^verbatim>\<open>log.Fatalf\<close> or \<^verbatim>\<open>log.Fatal\<close>
  (message, then exit status 1), or by the runtime panic of a failed type assertion
  \<^verbatim>\<open>x.(T)\<close>, recorded with the asserted type and the offending value.
\<close>

datatype halt = Fatal string "arg list" | PanicAssert string dyn

section \<open>Library functions used by the programs\<close>

subsection \<open>Decimal output: the verb \<^verbatim>\<open>%d\<close>\<close>

definition digit_char :: "nat \<Rightarrow> char" where
  "digit_char d = ''0123456789'' ! d"

function show_nat :: "nat \<Rightarrow> string" where
  "show_nat n =
     (if n < 10 then [digit_char n]
      else show_nat (n div 10) @ [digit_char (n mod 10)])"
  by pat_completeness auto
termination
  by (relation "measure id") auto

declare show_nat.simps [simp del]

definition show_int :: "int \<Rightarrow> string" where
  "show_int i = (if i < 0 then CHR ''-'' # show_nat (nat (- i)) else show_nat (nat i))"

subsection \<open>\<^verbatim>\<open>strconv.ParseInt(s, 10, 64)\<close>\<close>

text \<open>
  \<^verbatim>\<open>ParseUint\<close> reads the bytes left to right. A byte that is not a decimal digit is a
  syntax error; before multiplying it checks \<^verbatim>\<open>n >= cutoff\<close> with
  \<^verbatim>\<open>cutoff = maxUint64/10 + 1\<close>, and after adding the digit it checks that the sum did
  not wrap around or exceed \<^verbatim>\<open>maxVal = 1<<64 - 1\<close>. Below the cutoff \<open>n * 10\<close> fits
  in 64 bits, and the wrap-around test \<^verbatim>\<open>n1 < n || n1 > maxVal\<close> is \<open>n1 > maxVal\<close> on
  unbounded naturals. A range error is returned as soon as it is found, without looking
  at the remaining bytes.
\<close>

definition maxUint64 :: nat where
  "maxUint64 = 18446744073709551615"

definition is_digit :: "char \<Rightarrow> bool" where
  "is_digit c = (CHR ''0'' \<le> c \<and> c \<le> CHR ''9'')"

definition digit_val :: "char \<Rightarrow> nat" where
  "digit_val c = of_char c - 48"

fun ParseUint_loop :: "nat \<Rightarrow> string \<Rightarrow> numerr + nat" where
  "ParseUint_loop n [] = Inr n"
| "ParseUint_loop n (c # cs) =
     (if \<not> is_digit c then Inl ErrSyntax
      else if n \<ge> maxUint64 div 10 + 1 then Inl ErrRange
      else (let n1 = n * 10 + digit_val c in
            if n1 > maxUint64 then Inl ErrRange else ParseUint_loop n1 cs))"

definition ParseUint :: "string \<Rightarrow> numerr + nat" where
  "ParseUint s = (if s = [] then Inl ErrSyntax else ParseUint_loop 0 s)"

text \<open>
  \<^verbatim>\<open>ParseInt\<close> takes off one leading sign, converts the rest unsigned and checks the
  range of \<^verbatim>\<open>int64\<close>: \<^verbatim>\<open>cutoff = 1 << 63\<close>. After a range error of \<^verbatim>\<open>ParseUint\<close> the
  unsigned value is \<^verbatim>\<open>maxVal\<close>, which fails both range tests.
\<close>

definition ParseInt :: "string \<Rightarrow> err + int" where
  "ParseInt s =
     (if s = [] then Inl (NumError ''ParseInt'' s ErrSyntax)
      else
        let neg = (hd s = CHR ''-'');
            s' = (if hd s = CHR ''+'' \<or> hd s = CHR ''-'' then tl s else s)
        in case ParseUint s' of
             Inl ErrSyntax \<Rightarrow> Inl (NumError ''ParseInt'' s ErrSyntax)
           | Inl ErrRange \<Rightarrow> Inl (NumError ''ParseInt'' s ErrRange)
           | Inr un \<Rightarrow>
               if \<not> neg \<and> un \<ge> 2 ^ 63 then Inl (NumError ''ParseInt'' s ErrRange)
               else if neg \<and> un > 2 ^ 63 then Inl (NumError ''ParseInt'' s ErrRange)
               else Inr (if neg then - int un else int un))"

subsection \<open>The verb \<^verbatim>\<open>%v\<close> on a dynamic value\<close>

text \<open>
  \<^verbatim>\<open>fmt\<close> prints nil as \<^verbatim>\<open><nil>\<close>, strings and \<^verbatim>\<open>json.Number\<close> as their text, a slice as
  its elements between brackets and a map as \<^verbatim>\<open>map[k:v ...]\<close> with the keys in ascending
  order. An association list stands for the Go map that \<open>map_of\<close> reads from it, so
  shadowed entries are dropped first.
\<close>

fun join_sp :: "string list \<Rightarrow> string" where
  "join_sp [] = []"
| "join_sp [x] = x"
| "join_sp (x # y # ys) = x @ CHR '' '' # join_sp (y # ys)"

definition sorted_entries :: "gomap \<Rightarrow> gomap" where
  "sorted_entries kvs = sort_key fst (AList.clearjunk kvs)"

lemma set_clearjunk_subset: "set (AList.clearjunk al) \<subseteq> set al"
proof (induct al rule: AList.clearjunk.induct)
  case 1
  show ?case by simp
next
  case (2 p ps)
  have "set (AList.delete (fst p) ps) \<subseteq> set ps"
    by (simp add: AList.delete_eq)
  with 2 show ?case by auto
qed

lemma set_sorted_entries: "set (sorted_entries kvs) \<subseteq> set kvs"
  by (simp add: sorted_entries_def set_clearjunk_subset)

lemma size_entry: "kv \<in> set kvs \<Longrightarrow> size (snd kv) < Suc (size_list (size_prod (\<lambda>_. 0) size) kvs)"
  by (induction kvs) (auto simp: less_Suc_eq_le)

function sprint_v :: "dyn \<Rightarrow> string" where
  "sprint_v GNil = ''<nil>''"
| "sprint_v (GBool b) = (if b then ''true'' else ''false'')"
| "sprint_v (GNumber s) = s"
| "sprint_v (GString s) = s"
| "sprint_v (GInt i) = show_int i"
| "sprint_v (GSlice xs) = ''['' @ join_sp (map sprint_v xs) @ '']''"
| "sprint_v (GMap kvs) =
     ''map['' @ join_sp (map (\<lambda>kv. fst kv @ '':'' @ sprint_v (snd kv)) (sorted_entries kvs)) @ '']''"
  by pat_completeness auto
termination
proof (relation "measure size", goal_cases)
  case 1
  show ?case by simp
next
  case (2 xs x)
  then show ?case by (induction xs) auto
next
  case (3 kvs kv)
  then have "kv \<in> set kvs" using set_sorted_entries by blast
  then show ?case using size_entry [of kv kvs] by simp
qed

subsection \<open>\<^verbatim>\<open>time.Time\<close>: \<^verbatim>\<open>AddDate\<close> and \<^verbatim>\<open>Format(time.RFC3339)\<close>\<close>

text \<open>
  A time is held as its calendar fields in its own zone, with the zone's offset from UTC
  in seconds. The model covers zones whose offset does not change between the two dates
  (UTC, or any zone without a transition in that month).
\<close>

record gotime =
  tm_year :: int
  tm_month :: nat
  tm_day :: nat
  tm_hour :: nat
  tm_minute :: nat
  tm_second :: nat
  tm_offset :: int

definition isLeap :: "int \<Rightarrow> bool" where
  "isLeap y = (y mod 4 = 0 \<and> (y mod 100 \<noteq> 0 \<or> y mod 400 = 0))"

definition daysIn :: "nat \<Rightarrow> int \<Rightarrow> nat" where
  "daysIn m y =
     (if m = 2 then (if isLeap y then 29 else 28)
      else if m = 4 \<or> m = 6 \<or> m = 9 \<or> m = 11 then 30 else 31)"

text \<open>
  \<^verbatim>\<open>AddDate(years, months, days)\<close> adds to the fields and normalises the result as
  \<^verbatim>\<open>time.Date\<close> does: months beyond December carry into the year, days beyond the end
  of the month carry into the following months (October 31 plus one month is December 1).
  The arguments are taken non-negative; the programs pass 0, 1, 0.
\<close>

function norm_day :: "int \<Rightarrow> nat \<Rightarrow> nat \<Rightarrow> int \<times> nat \<times> nat" where
  "norm_day y m d =
     (if d > daysIn m y
      then (if m \<ge> 12 then norm_day (y + 1) 1 (d - daysIn m y)
            else norm_day y (m + 1) (d - daysIn m y))
      else (y, m, d))"
  by pat_completeness auto
termination
  by (relation "measure (\<lambda>(y, m, d). d)") (auto simp: daysIn_def)

declare norm_day.simps [simp del]

definition AddDate :: "gotime \<Rightarrow> nat \<Rightarrow> nat \<Rightarrow> nat \<Rightarrow> gotime" where
  "AddDate t years months days =
     (let m0 = tm_month t - 1 + months;
          y1 = tm_year t + int years + int (m0 div 12);
          m1 = m0 mod 12 + 1;
          (y2, m2, d2) = norm_day y1 m1 (tm_day t + days)
      in t\<lparr>tm_year := y2, tm_month := m2, tm_day := d2\<rparr>)"

text \<open>\<^verbatim>\<open>appendInt\<close> of package \<^verbatim>\<open>time\<close>: a sign, then the digits padded with zeros.\<close>

definition appendInt :: "int \<Rightarrow> nat \<Rightarrow> string" where
  "appendInt x width =
     (let ds = show_nat (nat \<bar>x\<bar>) in
      (if x < 0 then ''-'' else []) @ replicate (width - length ds) CHR ''0'' @ ds)"

text \<open>
  The layout \<^verbatim>\<open>2006-01-02T15:04:05Z07:00\<close>. The zone is \<^verbatim>\<open>Z\<close> at offset 0, else the
  offset in minutes (Go's division truncates towards zero) as sign, hours and minutes.
\<close>

definition Format_RFC3339 :: "gotime \<Rightarrow> string" where
  "Format_RFC3339 t =
     appendInt (tm_year t) 4 @ ''-'' @ appendInt (int (tm_month t)) 2 @ ''-'' @
     appendInt (int (tm_day t)) 2 @ ''T'' @ appendInt (int (tm_hour t)) 2 @ '':'' @
     appendInt (int (tm_minute t)) 2 @ '':'' @ appendInt (int (tm_second t)) 2 @
     (if tm_offset t = 0 then ''Z''
      else let zone = nat \<bar>tm_offset t\<bar> div 60 in
           (if tm_offset t < 0 \<and> zone \<noteq> 0 then ''-'' else ''+'') @
           appendInt (int (zone div 60)) 2 @ '':'' @ appendInt (int (zone mod 60)) 2)"

section \<open>Running a program against the remote service\<close>

text \<open>
  The OVH client is an external library. A client is given by what it answers: the
  \<open>n\<close>-th remote call of the run (counted from 0) is answered by \<open>post_reply c n\<close> when it is a
  POST with a map as target, by \<open>get_reply c n\<close> when it is the GET with a slice of maps as
  target. \<open>Inl e\<close> says that the call returned the error \<open>e\<close>, \<open>Inr x\<close> that it returned nil
  and that the target holds \<open>x\<close> afterwards. The programs are deterministic, so the run
  against any remote service is the run against the sequence of answers that this
  service gives.
\<close>

record client =
  post_reply :: "nat \<Rightarrow> err + gomap"
  get_reply :: "nat \<Rightarrow> err + gomap list"

text \<open>
  A statement of the program takes the number of remote calls made so far, and gives the
  events it produces and either the reason why the process stops there, or its value and
  the new number of calls.
\<close>

type_synonym 'a prog = "nat \<Rightarrow> event list \<times> (halt + 'a \<times> nat)"

definition ret :: "'a \<Rightarrow> 'a prog" where
  "ret x n = ([], Inr (x, n))"

definition bind :: "'a prog \<Rightarrow> ('a \<Rightarrow> 'b prog) \<Rightarrow> 'b prog" where
  "bind m f n =
     (case m n of
        (es, Inl h) \<Rightarrow> (es, Inl h)
      | (es, Inr (x, n')) \<Rightarrow> (case f x n' of (es', res) \<Rightarrow> (es @ es', res)))"

definition emit :: "event \<Rightarrow> unit prog" where
  "emit e n = ([e], Inr ((), n))"

definition halt_with :: "halt \<Rightarrow> 'a prog" where
  "halt_with h n = ([], Inl h)"

definition client_Post :: "client \<Rightarrow> string \<Rightarrow> dyn \<Rightarrow> (err + gomap) prog" where
  "client_Post c path body n = ([Call POST path body], Inr (post_reply c n, n + 1))"

definition client_Get :: "client \<Rightarrow> string \<Rightarrow> (err + gomap list) prog" where
  "client_Get c path n = ([Call GET path GNil], Inr (get_reply c n, n + 1))"

definition log_Fatalf :: "string \<Rightarrow> arg list \<Rightarrow> 'a prog" where
  "log_Fatalf format args = halt_with (Fatal format args)"

definition log_Fatal :: "string \<Rightarrow> 'a prog" where
  "log_Fatal msg = halt_with (Fatal msg [])"

definition log_Printf :: "string \<Rightarrow> arg list \<Rightarrow> unit prog" where
  "log_Printf format args = emit (LogPrintf format args)"

definition fmt_Printf :: "string \<Rightarrow> arg list \<Rightarrow> unit prog" where
  "fmt_Printf format args = emit (Printf format args)"

definition fmt_Println :: "string \<Rightarrow> unit prog" where
  "fmt_Println msg = emit (Println msg)"

definition time_Sleep :: "int \<Rightarrow> unit prog" where
  "time_Sleep d = emit (Sleep d)"

text \<open>The type assertions \<^verbatim>\<open>x.(string)\<close> and \<^verbatim>\<open>x.(json.Number)\<close> panic on any other value.\<close>

definition assert_string :: "dyn \<Rightarrow> string prog" where
  "assert_string x = (case x of GString s \<Rightarrow> ret s | _ \<Rightarrow> halt_with (PanicAssert ''string'' x))"

definition assert_Number :: "dyn \<Rightarrow> string prog" where
  "assert_Number x =
     (case x of GNumber s \<Rightarrow> ret s | _ \<Rightarrow> halt_with (PanicAssert ''json.Number'' x))"

text \<open>The whole run: its events, and \<open>None\<close> when \<^verbatim>\<open>main\<close> returned.\<close>

definition run :: "unit prog \<Rightarrow> event list \<times> halt option" where
  "run p = (case p 0 of (es, Inl h) \<Rightarrow> (es, Some h) | (es, Inr _) \<Rightarrow> (es, None))"

section \<open>The programs\<close>

subsection \<open>Start of \<^verbatim>\<open>main\<close>, the same in both files\<close>

text \<open>
  \<open>getenv\<close> is \<^verbatim>\<open>os.Getenv\<close> and \<open>NewClient\<close> is \<^verbatim>\<open>ovh.NewClient\<close>, which gives an error or
  a client.
\<close>

definition startup ::
  "(string \<Rightarrow> string) \<Rightarrow> (string \<Rightarrow> string \<Rightarrow> string \<Rightarrow> string \<Rightarrow> err + client) \<Rightarrow> client prog"
where
  "startup getenv NewClient =
     (let endpoint = getenv ''OVH_ENDPOINT'';
          appKey = getenv ''OVH_APPLICATION_KEY'';
          appSecret = getenv ''OVH_APPLICATION_SECRET'';
          consumerKey = getenv ''OVH_CONSUMER_KEY''
      in if endpoint = [] \<or> appKey = [] \<or> appSecret = [] \<or> consumerKey = []
         then log_Fatalf
           ''Please set OVH_ENDPOINT, OVH_APPLICATION_KEY, OVH_APPLICATION_SECRET, and OVH_CONSUMER_KEY environment variables''
           []
         else (case NewClient endpoint appKey appSecret consumerKey of
                 Inl err \<Rightarrow> log_Fatalf ''Error creating OVH client: %v'' [AErr err]
               | Inr client \<Rightarrow> ret client))"

subsection \<open>Steps 1 to 3: the cart and the server item\<close>

text \<open>
  Lines 37 to 76 of \<^verbatim>\<open>v1main.go\<close>. The value is the pair of \<^verbatim>\<open>cartID\<close> and \<^verbatim>\<open>itemID\<close>.
  \<open>conv_format\<close> is the format of the message after a failed \<^verbatim>\<open>ParseInt\<close>, the one
  place where the two files differ in these lines.
\<close>

definition cart_and_item :: "string \<Rightarrow> gotime \<Rightarrow> client \<Rightarrow> (string \<times> int) prog" where
  "cart_and_item conv_format now client =
     (let expireDate = Format_RFC3339 (AddDate now 0 1 0) in
      bind (client_Post client ''/order/cart''
              (GMap [(''ovhSubsidiary'', GString ''US''),
                     (''description'', GString ''Automated Dedicated Server Order''),
                     (''expire'', GString expireDate)])) (\<lambda>res.
      case res of
        Inl err \<Rightarrow> log_Fatalf ''Error creating cart: %v'' [AErr err]
      | Inr cart \<Rightarrow>
      bind (assert_string (map_index cart ''cartId'')) (\<lambda>cartID.
      bind (fmt_Printf ''Created Cart with ID: %s\<newline>'' [AStr cartID]) (\<lambda>_.
      bind (client_Post client (''/order/cart/'' @ cartID @ ''/assign'') GNil) (\<lambda>res.
      case res of
        Inl err \<Rightarrow> log_Fatalf ''Error assigning cart: %v'' [AErr err]
      | Inr _ \<Rightarrow>
      bind (fmt_Println ''Assigned cart to the logged-in user.'') (\<lambda>_.
      bind (client_Post client (''/order/cart/'' @ cartID @ ''/baremetalServers'')
              (GMap [(''duration'', GString ''P1M''),
                     (''planCode'', GString ''24rise01-us''),
                     (''pricingMode'', GString ''default''),
                     (''quantity'', GInt 1)])) (\<lambda>res.
      case res of
        Inl err \<Rightarrow> log_Fatalf ''Error adding server to cart: %v'' [AErr err]
      | Inr server \<Rightarrow>
      bind (assert_Number (map_index server ''itemId'')) (\<lambda>itemIDStr.
      case ParseInt itemIDStr of
        Inl err \<Rightarrow> log_Fatalf conv_format [AErr err]
      | Inr itemID \<Rightarrow>
      bind (fmt_Printf ''Added Server to Cart with Item ID: %d\<newline>'' [AInt itemID]) (\<lambda>_.
      ret (cartID, itemID))))))))))"

subsection \<open>Step 4: the configuration loop\<close>

text \<open>\<^verbatim>\<open>for _, config := range configItems\<close>, the same text in both files.\<close>

fun configure :: "client \<Rightarrow> string \<Rightarrow> int \<Rightarrow> (string \<times> string) list \<Rightarrow> unit prog" where
  "configure client cartID itemID [] = ret ()"
| "configure client cartID itemID (config # configItems) =
     bind (client_Post client
             (''/order/cart/'' @ cartID @ ''/item/'' @ show_int itemID @ ''/configuration'')
             (GMap [(''label'', GString (fst config)), (''value'', GString (snd config))])) (\<lambda>res.
     case res of
       Inl err \<Rightarrow> log_Fatalf ''Error configuring %s: %v'' [AStr (fst config), AErr err]
     | Inr configResponse \<Rightarrow>
     bind (fmt_Printf ''Configured %s with value %s\<newline>'' [AStr (fst config), AStr (snd config)]) (\<lambda>_.
     configure client cartID itemID configItems))"

definition v1_configItems :: "(string \<times> string) list" where
  "v1_configItems =
     [(''dedicated_os'', ''none_64_en''), (''region'', ''united_states''),
      (''dedicated_datacenter'', ''hil'')]"

definition v3_configItems :: "(string \<times> string) list" where
  "v3_configItems =
     [(''dedicated_os'', ''none_64.en''), (''region'', ''united_states''),
      (''dedicated_datacenter'', ''hil'')]"

subsection \<open>Step 5: options\<close>

definition option_body :: "int \<Rightarrow> string \<Rightarrow> dyn" where
  "option_body itemID planCode =
     GMap [(''duration'', GString ''P1M''), (''itemId'', GInt itemID),
           (''planCode'', GString planCode), (''pricingMode'', GString ''default''),
           (''quantity'', GInt 1)]"

text \<open>\<^verbatim>\<open>v1main.go\<close>, lines 100 to 112: one option, written out.\<close>

definition v1_add_option :: "client \<Rightarrow> string \<Rightarrow> int \<Rightarrow> unit prog" where
  "v1_add_option client cartID itemID =
     bind (client_Post client (''/order/cart/'' @ cartID @ ''/baremetalServers/options'')
             (option_body itemID ''vrack-bandwidth-1000-24rise-us'')) (\<lambda>res.
     case res of
       Inl err \<Rightarrow> log_Fatalf ''Error adding option: %v'' [AErr err]
     | Inr optionResponse \<Rightarrow> fmt_Println ''Added option to the server.'')"

text \<open>\<^verbatim>\<open>v3main.go\<close>, lines 99 to 120: \<^verbatim>\<open>for _, planCode := range options\<close>.\<close>

definition v3_options :: "string list" where
  "v3_options =
     [''vrack-bandwidth-1000-24rise-us'', ''softraid-2x512nvme-24rise-us'',
      ''ram-32g-ecc-3200-24rise-us'', ''bandwidth-1000-unguaranteed-24rise-us'']"

fun v3_add_options :: "client \<Rightarrow> string \<Rightarrow> int \<Rightarrow> string list \<Rightarrow> unit prog" where
  "v3_add_options client cartID itemID [] = ret ()"
| "v3_add_options client cartID itemID (planCode # options) =
     bind (client_Post client (''/order/cart/'' @ cartID @ ''/baremetalServers/options'')
             (option_body itemID planCode)) (\<lambda>res.
     case res of
       Inl err \<Rightarrow>
         log_Fatalf ''Error adding option with planCode %s: %v'' [AStr planCode, AErr err]
     | Inr optionResponse \<Rightarrow>
     bind (fmt_Printf ''Added option with planCode %s\<newline>'' [AStr planCode]) (\<lambda>_.
     v3_add_options client cartID itemID options))"

subsection \<open>Step 6: checkout\<close>

text \<open>
  \<^verbatim>\<open>v1main.go\<close>, lines 115 to 130. The loop variables are \<^verbatim>\<open>attempt\<close>, \<^verbatim>\<open>err\<close> (nil when
  the loop is entered, since step 5 succeeded) and the map \<^verbatim>\<open>order\<close>. The sleep is
  \<^verbatim>\<open>time.Duration(math.Pow(2, float64(attempt))) * time.Second\<close>; for the attempts 1 to 3
  the power is the exact float 2, 4 or 8, and the product in nanoseconds is far below
  \<open>2 ^ 63\<close>.
\<close>

definition maxRetries :: nat where
  "maxRetries = 3"

definition time_Second :: int where
  "time_Second = 1000000000"

function checkout_loop ::
  "client \<Rightarrow> string \<Rightarrow> nat \<Rightarrow> err option \<Rightarrow> gomap \<Rightarrow> (err option \<times> gomap) prog"
where
  "checkout_loop client cartID attempt err order n =
     (if attempt \<le> maxRetries then
        bind (client_Post client (''/order/cart/'' @ cartID @ ''/checkout'') GNil) (\<lambda>res.
        case res of
          Inr order' \<Rightarrow> ret (None, order')
        | Inl err' \<Rightarrow>
        bind (log_Printf ''Attempt %d failed with error: %v. Retrying...\<newline>''
                [AInt (int attempt), AErr err']) (\<lambda>_.
        bind (time_Sleep (2 ^ attempt * time_Second)) (\<lambda>_.
        checkout_loop client cartID (attempt + 1) (Some err') order))) n
      else ret (err, order) n)"
  by pat_completeness auto
termination
  by (relation "measure (\<lambda>(client, cartID, attempt, err, order, n). maxRetries + 1 - attempt)") auto

declare checkout_loop.simps [simp del]

definition v1_checkout :: "client \<Rightarrow> string \<Rightarrow> string prog" where
  "v1_checkout client cartID =
     bind (checkout_loop client cartID 1 None []) (\<lambda>(err, order).
     case err of
       Some _ \<Rightarrow>
         log_Fatalf ''Order validation failed: failed after %d retries'' [AInt (int maxRetries)]
     | None \<Rightarrow>
     (let orderID = sprint_v (map_index order ''orderId'') in
      bind (fmt_Printf ''Order validated. Order ID: %s\<newline>'' [AStr orderID]) (\<lambda>_.
      ret orderID)))"

text \<open>\<^verbatim>\<open>v3main.go\<close>, lines 122 to 129: one call.\<close>

definition v3_checkout :: "client \<Rightarrow> string \<Rightarrow> string prog" where
  "v3_checkout client cartID =
     bind (client_Post client (''/order/cart/'' @ cartID @ ''/checkout'') GNil) (\<lambda>res.
     case res of
       Inl err \<Rightarrow> log_Fatalf ''Error validating order: %v'' [AErr err]
     | Inr order \<Rightarrow>
     (let orderID = sprint_v (map_index order ''orderId'') in
      bind (fmt_Printf ''Order validated. Order ID: %s\<newline>'' [AStr orderID]) (\<lambda>_.
      ret orderID)))"

subsection \<open>Steps 7 and 8: payment, the same text in both files\<close>

definition pay_order :: "client \<Rightarrow> string \<Rightarrow> unit prog" where
  "pay_order client orderID =
     bind (client_Get client (''/me/order/'' @ orderID @ ''/availablePaymentMethod'')) (\<lambda>res.
     case res of
       Inl err \<Rightarrow> log_Fatalf ''Error fetching payment methods: %v'' [AErr err]
     | Inr paymentMethods \<Rightarrow>
     bind (fmt_Printf ''Available Payment Methods: %v\<newline>''
             [AVal (GSlice (map GMap paymentMethods))]) (\<lambda>_.
     if length paymentMethods > 0 then
       bind (assert_Number (map_index (paymentMethods ! 0) ''id'')) (\<lambda>paymentID.
       bind (assert_string (map_index (paymentMethods ! 0) ''type'')) (\<lambda>paymentType.
       bind (client_Post client (''/me/order/'' @ orderID @ ''/pay'')
               (GMap [(''paymentMethod'',
                       GMap [(''id'', GNumber paymentID), (''type'', GString paymentType)])])) (\<lambda>res.
       case res of
         Inl err \<Rightarrow> log_Fatalf ''Error paying for the order: %v'' [AErr err]
       | Inr paymentResponse \<Rightarrow> fmt_Println ''Order has been successfully paid.'')))
     else log_Fatal ''No available payment methods found.''))"

subsection \<open>The two \<^verbatim>\<open>main\<close> functions\<close>

definition v1_workflow :: "gotime \<Rightarrow> client \<Rightarrow> unit prog" where
  "v1_workflow now client =
     bind (cart_and_item ''Error converting itemId to int64: %v'' now client) (\<lambda>(cartID, itemID).
     bind (configure client cartID itemID v1_configItems) (\<lambda>_.
     bind (v1_add_option client cartID itemID) (\<lambda>_.
     bind (v1_checkout client cartID) (\<lambda>orderID.
     pay_order client orderID))))"

definition v3_workflow :: "gotime \<Rightarrow> client \<Rightarrow> unit prog" where
  "v3_workflow now client =
     bind (cart_and_item ''Error converting itemId to integer: %v'' now client) (\<lambda>(cartID, itemID).
     bind (configure client cartID itemID v3_configItems) (\<lambda>_.
     bind (v3_add_options client cartID itemID v3_options) (\<lambda>_.
     bind (v3_checkout client cartID) (\<lambda>orderID.
     pay_order client orderID))))"

definition v1_main ::
  "(string \<Rightarrow> string) \<Rightarrow> (string \<Rightarrow> string \<Rightarrow> string \<Rightarrow> string \<Rightarrow> err + client) \<Rightarrow> gotime
     \<Rightarrow> event list \<times> halt option"
where
  "v1_main getenv NewClient now = run (bind (startup getenv NewClient) (v1_workflow now))"

definition v3_main ::
  "(string \<Rightarrow> string) \<Rightarrow> (string \<Rightarrow> string \<Rightarrow> string \<Rightarrow> string \<Rightarrow> err + client) \<Rightarrow> gotime
     \<Rightarrow> event list \<times> halt option"
where
  "v3_main getenv NewClient now = run (bind (startup getenv NewClient) (v3_workflow now))"

section \<open>Stubs of the remote service\<close>

text \<open>
  A stub answers the calls of a run from a list, in order: with an error, with an object
  or with a sequence of objects. An answer of the wrong shape for the target of the call,
  and any call after the end of the list, is an error of the client.
\<close>

datatype answer = Failed string | Object gomap | Objects "gomap list"

definition stub :: "answer list \<Rightarrow> client" where
  "stub answers =
     \<lparr>post_reply = (\<lambda>n.
        if n < length answers then
          (case answers ! n of
             Failed e \<Rightarrow> Inl (ClientError e)
           | Object m \<Rightarrow> Inr m
           | Objects ms \<Rightarrow> Inl (ClientError ''json: cannot unmarshal array''))
        else Inl (ClientError ''EOF'')),
      get_reply = (\<lambda>n.
        if n < length answers then
          (case answers ! n of
             Failed e \<Rightarrow> Inl (ClientError e)
           | Object m \<Rightarrow> Inl (ClientError ''json: cannot unmarshal object'')
           | Objects ms \<Rightarrow> Inr ms)
        else Inl (ClientError ''EOF''))\<rparr>"

definition utc :: "int \<Rightarrow> nat \<Rightarrow> nat \<Rightarrow> nat \<Rightarrow> nat \<Rightarrow> nat \<Rightarrow> gotime" where
  "utc y m d hh mm ss =
     \<lparr>tm_year = y, tm_month = m, tm_day = d, tm_hour = hh, tm_minute = mm, tm_second = ss,
      tm_offset = 0\<rparr>"

section \<open>Observations on a run\<close>

text \<open>The remote calls of a trace, in order, and the sleeps of a trace, in order.\<close>

fun calls :: "event list \<Rightarrow> (verb \<times> string \<times> dyn) list" where
  "calls [] = []"
| "calls (Call m p b # es) = (m, p, b) # calls es"
| "calls (Printf f a # es) = calls es"
| "calls (Println s # es) = calls es"
| "calls (LogPrintf f a # es) = calls es"
| "calls (Sleep d # es) = calls es"

fun sleeps :: "event list \<Rightarrow> int list" where
  "sleeps [] = []"
| "sleeps (Sleep d # es) = d # sleeps es"
| "sleeps (Call m p b # es) = sleeps es"
| "sleeps (Printf f a # es) = sleeps es"
| "sleeps (Println s # es) = sleeps es"
| "sleeps (LogPrintf f a # es) = sleeps es"

definition prepend :: "event list \<Rightarrow> event list \<times> 'r \<Rightarrow> event list \<times> 'r" where
  "prepend es r = (es @ fst r, snd r)"

definition outcome :: "halt + 'a \<Rightarrow> halt option" where
  "outcome r = (case r of Inl h \<Rightarrow> Some h | Inr _ \<Rightarrow> None)"

text \<open>
  \<open>posts_only p\<close>: all remote calls of the statement \<open>p\<close> are POST calls, and when \<open>p\<close>
  completes, the number of calls has grown by the calls in its trace.
\<close>

definition posts_only :: "'a prog \<Rightarrow> bool" where
  "posts_only p =
     (\<forall>n. (\<forall>c \<in> set (calls (fst (p n))). fst c = POST) \<and>
          (\<forall>x n'. snd (p n) = Inr (x, n') \<longrightarrow> n' = n + length (calls (fst (p n)))))"

section \<open>Auxiliary definitions for the proofs\<close>

text \<open>The statements of a program up to the checkout, without the payment.\<close>

definition v1_before_payment :: "gotime \<Rightarrow> client \<Rightarrow> string prog" where
  "v1_before_payment now client =
     bind (cart_and_item ''Error converting itemId to int64: %v'' now client) (\<lambda>(cartID, itemID).
     bind (configure client cartID itemID v1_configItems) (\<lambda>_.
     bind (v1_add_option client cartID itemID) (\<lambda>_.
     v1_checkout client cartID)))"

definition v3_before_payment :: "gotime \<Rightarrow> client \<Rightarrow> string prog" where
  "v3_before_payment now client =
     bind (cart_and_item ''Error converting itemId to integer: %v'' now client) (\<lambda>(cartID, itemID).
     bind (configure client cartID itemID v3_configItems) (\<lambda>_.
     bind (v3_add_options client cartID itemID v3_options) (\<lambda>_.
     v3_checkout client cartID)))"

section \<open>The remote interface, as the specification tabulates it\<close>

text \<open>
  The eight calls of the interface table: method, path and request fields, as functions
  of the identifiers that the call depends on.
\<close>

definition create_call :: "gotime \<Rightarrow> verb \<times> string \<times> dyn" where
  "create_call now =
     (POST, ''/order/cart'',
      GMap [(''ovhSubsidiary'', GString ''US''),
            (''description'', GString ''Automated Dedicated Server Order''),
            (''expire'', GString (Format_RFC3339 (AddDate now 0 1 0)))])"

definition assign_call :: "string \<Rightarrow> verb \<times> string \<times> dyn" where
  "assign_call cartID = (POST, ''/order/cart/'' @ cartID @ ''/assign'', GNil)"

definition item_call :: "string \<Rightarrow> verb \<times> string \<times> dyn" where
  "item_call cartID =
     (POST, ''/order/cart/'' @ cartID @ ''/baremetalServers'',
      GMap [(''duration'', GString ''P1M''), (''planCode'', GString ''24rise01-us''),
            (''pricingMode'', GString ''default''), (''quantity'', GInt 1)])"

definition config_call :: "string \<Rightarrow> int \<Rightarrow> string \<times> string \<Rightarrow> verb \<times> string \<times> dyn" where
  "config_call cartID itemID config =
     (POST, ''/order/cart/'' @ cartID @ ''/item/'' @ show_int itemID @ ''/configuration'',
      GMap [(''label'', GString (fst config)), (''value'', GString (snd config))])"

definition option_call :: "string \<Rightarrow> int \<Rightarrow> string \<Rightarrow> verb \<times> string \<times> dyn" where
  "option_call cartID itemID planCode =
     (POST, ''/order/cart/'' @ cartID @ ''/baremetalServers/options'',
      GMap [(''duration'', GString ''P1M''), (''itemId'', GInt itemID),
            (''planCode'', GString planCode), (''pricingMode'', GString ''default''),
            (''quantity'', GInt 1)])"

definition checkout_call :: "string \<Rightarrow> verb \<times> string \<times> dyn" where
  "checkout_call cartID = (POST, ''/order/cart/'' @ cartID @ ''/checkout'', GNil)"

definition methods_call :: "string \<Rightarrow> verb \<times> string \<times> dyn" where
  "methods_call orderID = (GET, ''/me/order/'' @ orderID @ ''/availablePaymentMethod'', GNil)"

definition pay_call :: "string \<Rightarrow> string \<Rightarrow> string \<Rightarrow> verb \<times> string \<times> dyn" where
  "pay_call orderID paymentID paymentType =
     (POST, ''/me/order/'' @ orderID @ ''/pay'',
      GMap [(''paymentMethod'',
             GMap [(''id'', GNumber paymentID), (''type'', GString paymentType)])])"

text \<open>
  The identifiers that the answers of a client carry: the \<^verbatim>\<open>cartId\<close> of the answer to
  call 0, when it is a string; the \<^verbatim>\<open>itemId\<close> of the answer to call 2, when it is a number
  token that parses as a 64-bit integer; the \<^verbatim>\<open>orderId\<close> of a successful answer to call
  \<open>n\<close>, printed with \<^verbatim>\<open>%v\<close>.
\<close>

definition received_cartId :: "client \<Rightarrow> string option" where
  "received_cartId client =
     (case post_reply client 0 of
        Inl _ \<Rightarrow> None
      | Inr cart \<Rightarrow> (case map_index cart ''cartId'' of GString c \<Rightarrow> Some c | _ \<Rightarrow> None))"

definition received_itemId :: "client \<Rightarrow> int option" where
  "received_itemId client =
     (case post_reply client 2 of
        Inl _ \<Rightarrow> None
      | Inr server \<Rightarrow>
          (case map_index server ''itemId'' of
             GNumber s \<Rightarrow> (case ParseInt s of Inl _ \<Rightarrow> None | Inr i \<Rightarrow> Some i)
           | _ \<Rightarrow> None))"

definition received_orderId :: "client \<Rightarrow> nat \<Rightarrow> string option" where
  "received_orderId client n =
     (case post_reply client n of
        Inl _ \<Rightarrow> None
      | Inr order \<Rightarrow> Some (sprint_v (map_index order ''orderId'')))"

section \<open>When the workflow starts\<close>

text \<open>
  \<open>started getenv NewClient client\<close>: the four credentials are set and the client has been
  created, so \<^verbatim>\<open>main\<close> goes on to step 1 with \<open>client\<close>.
\<close>

definition started ::
  "(string \<Rightarrow> string) \<Rightarrow> (string \<Rightarrow> string \<Rightarrow> string \<Rightarrow> string \<Rightarrow> err + client) \<Rightarrow> client \<Rightarrow> bool"
where
  "started getenv NewClient client =
     (getenv ''OVH_ENDPOINT'' \<noteq> [] \<and> getenv ''OVH_APPLICATION_KEY'' \<noteq> [] \<and>
      getenv ''OVH_APPLICATION_SECRET'' \<noteq> [] \<and> getenv ''OVH_CONSUMER_KEY'' \<noteq> [] \<and>
      NewClient (getenv ''OVH_ENDPOINT'') (getenv ''OVH_APPLICATION_KEY'')
        (getenv ''OVH_APPLICATION_SECRET'') (getenv ''OVH_CONSUMER_KEY'') = Inr client)"

section \<open>Concrete scenarios\<close>

text \<open>
  An environment with the four credentials, a constructor that accepts them, a clock
  reading, and answers under which the steps 1 to 5 succeed: seven calls in
  \<^verbatim>\<open>v1main.go\<close>, ten in \<^verbatim>\<open>v3main.go\<close>.
\<close>

definition env_set :: "string \<Rightarrow> string" where
  "env_set name = ''secret''"

definition accept :: "client \<Rightarrow> string \<Rightarrow> string \<Rightarrow> string \<Rightarrow> string \<Rightarrow> err + client" where
  "accept client endpoint appKey appSecret consumerKey = Inr client"

definition noon :: gotime where
  "noon = utc 2024 1 15 12 0 0"

definition v1_steps_ok :: "answer list" where
  "v1_steps_ok =
     [Object [(''cartId'', GString ''c-1'')], Object [], Object [(''itemId'', GNumber ''42'')],
      Object [], Object [], Object [], Object []]"

definition v3_steps_ok :: "answer list" where
  "v3_steps_ok = v1_steps_ok @ [Object [], Object [], Object []]"

section \<open>Well-formed integers, as the specification words them\<close>

text \<open>
  A well-formed 64-bit integer: an optional sign, then one or more decimal digits, whose
  value lies between \<open>- 2 ^ 63\<close> and \<open>2 ^ 63 - 1\<close>.
\<close>

definition decimal_value :: "string \<Rightarrow> nat" where
  "decimal_value ds = foldl (\<lambda>n c. n * 10 + digit_val c) 0 ds"

definition unsigned_part :: "string \<Rightarrow> string" where
  "unsigned_part s = (if s \<noteq> [] \<and> (hd s = CHR ''+'' \<or> hd s = CHR ''-'') then tl s else s)"

definition int64_value :: "string \<Rightarrow> int" where
  "int64_value s =
     (if s \<noteq> [] \<and> hd s = CHR ''-'' then - int (decimal_value (unsigned_part s))
      else int (decimal_value (unsigned_part s)))"

definition well_formed_int64 :: "string \<Rightarrow> bool" where
  "well_formed_int64 s =
     (unsigned_part s \<noteq> [] \<and> list_all is_digit (unsigned_part s) \<and>
      - (2 ^ 63) \<le> int64_value s \<and> int64_value s < 2 ^ 63)"

section \<open>Answers under which the first steps succeed\<close>

definition answered_ok :: "client \<Rightarrow> nat \<Rightarrow> bool" where
  "answered_ok client n = (case post_reply client n of Inl _ \<Rightarrow> False | Inr _ \<Rightarrow> True)"

text \<open>
  \<open>item_added client cartID itemID\<close>: the answers to the calls 0, 1 and 2 let the steps 1 to 3
  succeed, with these identifiers.
\<close>

definition item_added :: "client \<Rightarrow> string \<Rightarrow> int \<Rightarrow> bool" where
  "item_added client cartID itemID =
     (received_cartId client = Some cartID \<and> answered_ok client 1 \<and>
      received_itemId client = Some itemID)"

text \<open>
  The trace of failed checkout attempts, numbered from \<open>attempt\<close>, that fail with the
  errors of the list: the call, the log line, the sleep of \<open>2 ^ attempt\<close> seconds.
\<close>

fun retry_events :: "string \<Rightarrow> nat \<Rightarrow> err list \<Rightarrow> event list" where
  "retry_events cartID attempt [] = []"
| "retry_events cartID attempt (e # errs) =
     [Call POST (''/order/cart/'' @ cartID @ ''/checkout'') GNil,
      LogPrintf ''Attempt %d failed with error: %v. Retrying...\<newline>'' [AInt (int attempt), AErr e],
      Sleep (2 ^ attempt * time_Second)] @ retry_events cartID (attempt + 1) errs"

text \<open>Whether the message of a fatal exit names a plan code among its arguments.\<close>

definition message_names :: "string \<Rightarrow> halt option \<Rightarrow> bool" where
  "message_names planCode h =
     (case h of Some (Fatal format args) \<Rightarrow> AStr planCode \<in> set args | _ \<Rightarrow> False)"

section \<open>Laws of sequencing\<close>

lemma calls_append [simp]: "calls (xs @ ys) = calls xs @ calls ys"
  by (induction xs rule: calls.induct) simp_all

lemma sleeps_append [simp]: "sleeps (xs @ ys) = sleeps xs @ sleeps ys"
  by (induction xs rule: sleeps.induct) simp_all

lemma prepend_pair [simp]: "prepend es (es', r) = (es @ es', r)"
  by (simp add: prepend_def)

lemma prepend_prepend [simp]: "prepend es (prepend es' r) = prepend (es @ es') r"
  by (simp add: prepend_def)

lemma fst_prepend [simp]: "fst (prepend es r) = es @ fst r"
  by (simp add: prepend_def)

lemma snd_prepend [simp]: "snd (prepend es r) = snd r"
  by (simp add: prepend_def)

lemma bind_ret: "bind (ret x) f n = f x n"
  by (simp add: bind_def ret_def split: prod.splits)

lemma bind_halt_with: "bind (halt_with h) f n = ([], Inl h)"
  by (simp add: bind_def halt_with_def)

lemma bind_log_Fatalf: "bind (log_Fatalf format args) f n = ([], Inl (Fatal format args))"
  by (simp add: log_Fatalf_def bind_halt_with)

lemma bind_emit: "bind (emit e) f n = prepend [e] (f () n)"
  by (simp add: bind_def emit_def prepend_def split: prod.splits)

lemma bind_client_Post:
  "bind (client_Post c p b) f n = prepend [Call POST p b] (f (post_reply c n) (n + 1))"
  by (simp add: bind_def client_Post_def prepend_def split: prod.splits)

lemma bind_client_Get:
  "bind (client_Get c p) f n = prepend [Call GET p GNil] (f (get_reply c n) (n + 1))"
  by (simp add: bind_def client_Get_def prepend_def split: prod.splits)

lemma bind_fmt_Printf: "bind (fmt_Printf format args) f n = prepend [Printf format args] (f () n)"
  by (simp add: fmt_Printf_def bind_emit)

lemma bind_fmt_Println: "bind (fmt_Println msg) f n = prepend [Println msg] (f () n)"
  by (simp add: fmt_Println_def bind_emit)

lemma bind_log_Printf: "bind (log_Printf format args) f n = prepend [LogPrintf format args] (f () n)"
  by (simp add: log_Printf_def bind_emit)

lemma bind_time_Sleep: "bind (time_Sleep d) f n = prepend [Sleep d] (f () n)"
  by (simp add: time_Sleep_def bind_emit)

lemma bind_assert_string_GString: "bind (assert_string (GString s)) f n = f s n"
  by (simp add: assert_string_def bind_ret)

lemma bind_assert_Number_GNumber: "bind (assert_Number (GNumber s)) f n = f s n"
  by (simp add: assert_Number_def bind_ret)

lemmas bind_simps =
  bind_ret bind_halt_with bind_log_Fatalf bind_emit bind_client_Post bind_client_Get
  bind_fmt_Printf bind_fmt_Println bind_log_Printf bind_time_Sleep
  bind_assert_string_GString bind_assert_Number_GNumber

lemma bind_assoc: "bind (bind m f) g = bind m (\<lambda>x. bind (f x) g)"
  by (rule ext) (simp add: bind_def split: prod.splits sum.splits)

lemma bind_Inl: "m n = (es, Inl h) \<Longrightarrow> bind m f n = (es, Inl h)"
  by (simp add: bind_def)

lemma bind_Inr: "m n = (es, Inr (x, n')) \<Longrightarrow> bind m f n = prepend es (f x n')"
  by (simp add: bind_def prepend_def split: prod.splits)

lemma run_Inl: "p 0 = (es, Inl h) \<Longrightarrow> run p = (es, Some h)"
  by (simp add: run_def)

lemma run_Inr: "p 0 = (es, Inr v) \<Longrightarrow> run p = (es, None)"
  by (simp add: run_def)

lemma run_eq: "run p = (fst (p 0), outcome (snd (p 0)))"
  by (simp add: run_def outcome_def split: prod.splits sum.splits)

subsection \<open>Statements that only post\<close>

lemma posts_only_ret [simp]: "posts_only (ret x)"
  by (simp add: posts_only_def ret_def)

lemma posts_only_halt_with [simp]: "posts_only (halt_with h)"
  by (simp add: posts_only_def halt_with_def)

lemma posts_only_log_Fatalf [simp]: "posts_only (log_Fatalf format args)"
  by (simp add: log_Fatalf_def)

lemma posts_only_fmt_Printf [simp]: "posts_only (fmt_Printf format args)"
  by (simp add: posts_only_def fmt_Printf_def emit_def)

lemma posts_only_fmt_Println [simp]: "posts_only (fmt_Println msg)"
  by (simp add: posts_only_def fmt_Println_def emit_def)

lemma posts_only_log_Printf [simp]: "posts_only (log_Printf format args)"
  by (simp add: posts_only_def log_Printf_def emit_def)

lemma posts_only_time_Sleep [simp]: "posts_only (time_Sleep d)"
  by (simp add: posts_only_def time_Sleep_def emit_def)

lemma posts_only_client_Post [simp]: "posts_only (client_Post c p b)"
  by (simp add: posts_only_def client_Post_def)

lemma posts_only_assert_string [simp]: "posts_only (assert_string x)"
  by (cases x) (simp_all add: assert_string_def)

lemma posts_only_assert_Number [simp]: "posts_only (assert_Number x)"
  by (cases x) (simp_all add: assert_Number_def)

lemma posts_only_bind [intro]:
  assumes "posts_only m" and "\<And>x. posts_only (f x)"
  shows "posts_only (bind m f)"
  unfolding posts_only_def
proof (intro allI)
  fix n
  obtain es r where mn: "m n = (es, r)" by (cases "m n")
  show "(\<forall>c \<in> set (calls (fst (bind m f n))). fst c = POST) \<and>
        (\<forall>x n'. snd (bind m f n) = Inr (x, n') \<longrightarrow> n' = n + length (calls (fst (bind m f n))))"
  proof (cases r)
    case (Inl h)
    from assms(1) have "\<forall>c \<in> set (calls (fst (m n))). fst c = POST"
      by (simp add: posts_only_def)
    with mn Inl show ?thesis
      by (simp add: bind_def)
  next
    case (Inr v)
    obtain x n1 where v: "v = (x, n1)" by (cases v)
    from assms(1) have
      "\<forall>c \<in> set (calls (fst (m n))). fst c = POST" and
      "\<forall>y n'. snd (m n) = Inr (y, n') \<longrightarrow> n' = n + length (calls (fst (m n)))"
      by (simp_all add: posts_only_def)
    with mn Inr v have n1: "n1 = n + length (calls es)"
      and pes: "\<forall>c \<in> set (calls es). fst c = POST"
      by simp_all
    from assms(2) [of x] have
      f1: "\<forall>c \<in> set (calls (fst (f x n1))). fst c = POST" and
      f2: "\<forall>y n'. snd (f x n1) = Inr (y, n') \<longrightarrow> n' = n1 + length (calls (fst (f x n1)))"
      by (auto simp: posts_only_def)
    have b: "bind m f n = prepend es (f x n1)"
      using mn Inr v by (simp add: bind_Inr)
    show ?thesis
      using pes f1 f2 n1 by (auto simp: b)
  qed
qed

lemma posts_only_case_sum [intro]:
  "(\<And>e. posts_only (f e)) \<Longrightarrow> (\<And>m. posts_only (g m)) \<Longrightarrow> posts_only (case_sum f g res)"
  by (cases res) simp_all

lemma posts_only_case_prod [intro]:
  "(\<And>a b. posts_only (f a b)) \<Longrightarrow> posts_only (case_prod f p)"
  by (cases p) simp

lemma posts_only_case_option [intro]:
  "posts_only a \<Longrightarrow> (\<And>x. posts_only (f x)) \<Longrightarrow> posts_only (case_option a f opt)"
  by (cases opt) simp_all

subsection \<open>The phases before payment only post\<close>

lemma checkout_loop_unfold:
  "checkout_loop client cartID attempt err order =
     (if attempt \<le> maxRetries then
        bind (client_Post client (''/order/cart/'' @ cartID @ ''/checkout'') GNil) (\<lambda>res.
        case res of
          Inr order' \<Rightarrow> ret (None, order')
        | Inl err' \<Rightarrow>
        bind (log_Printf ''Attempt %d failed with error: %v. Retrying...\<newline>''
                [AInt (int attempt), AErr err']) (\<lambda>_.
        bind (time_Sleep (2 ^ attempt * time_Second)) (\<lambda>_.
        checkout_loop client cartID (attempt + 1) (Some err') order)))
      else ret (err, order))"
  by (rule ext) (subst checkout_loop.simps, simp only: if_distribR)

lemma posts_only_cart_and_item: "posts_only (cart_and_item f now client)"
  unfolding cart_and_item_def Let_def
  by (intro posts_only_bind posts_only_case_sum posts_only_client_Post posts_only_log_Fatalf
      posts_only_assert_string posts_only_assert_Number posts_only_fmt_Printf posts_only_fmt_Println posts_only_ret)

lemma posts_only_configure: "posts_only (configure client cartID itemID cfg)"
proof (induction cfg)
  case Nil
  show ?case by simp
next
  case (Cons config cfg)
  show ?case
    unfolding configure.simps
    by (intro posts_only_bind posts_only_case_sum posts_only_client_Post posts_only_log_Fatalf
        posts_only_fmt_Printf Cons.IH)
qed

lemma posts_only_v1_add_option: "posts_only (v1_add_option client cartID itemID)"
  unfolding v1_add_option_def
  by (intro posts_only_bind posts_only_case_sum posts_only_client_Post posts_only_log_Fatalf posts_only_fmt_Println)

lemma posts_only_v3_add_options: "posts_only (v3_add_options client cartID itemID opts)"
proof (induction opts)
  case Nil
  show ?case by simp
next
  case (Cons planCode opts)
  show ?case
    unfolding v3_add_options.simps
    by (intro posts_only_bind posts_only_case_sum posts_only_client_Post posts_only_log_Fatalf
        posts_only_fmt_Printf Cons.IH)
qed

lemma posts_only_checkout_loop: "posts_only (checkout_loop client cartID attempt err order)"
proof (induction "maxRetries + 1 - attempt" arbitrary: attempt err)
  case 0
  then have "\<not> attempt \<le> maxRetries" by simp
  then show ?case by (subst checkout_loop_unfold) simp
next
  case (Suc k)
  then have le: "attempt \<le> maxRetries" and k: "k = maxRetries + 1 - (attempt + 1)" by simp_all
  have rec: "\<And>e. posts_only (checkout_loop client cartID (attempt + 1) (Some e) order)"
    using Suc.hyps(1) [OF k] .
  show ?case
    by (subst checkout_loop_unfold, simp only: le if_True)
       (intro posts_only_bind posts_only_case_sum posts_only_client_Post posts_only_ret
          posts_only_log_Printf posts_only_time_Sleep rec)
qed

lemma posts_only_v1_checkout: "posts_only (v1_checkout client cartID)"
  unfolding v1_checkout_def Let_def
  by (intro posts_only_bind posts_only_case_prod posts_only_case_option posts_only_checkout_loop
      posts_only_log_Fatalf posts_only_fmt_Printf posts_only_ret)

lemma posts_only_v3_checkout: "posts_only (v3_checkout client cartID)"
  unfolding v3_checkout_def Let_def
  by (intro posts_only_bind posts_only_case_sum posts_only_client_Post
      posts_only_log_Fatalf posts_only_fmt_Printf posts_only_ret)

subsection \<open>The workflow is the phases before payment, then payment\<close>

lemma v1_workflow_split: "v1_workflow now client = bind (v1_before_payment now client) (pay_order client)"
  by (simp add: v1_workflow_def v1_before_payment_def bind_assoc split_def)

lemma v3_workflow_split: "v3_workflow now client = bind (v3_before_payment now client) (pay_order client)"
  by (simp add: v3_workflow_def v3_before_payment_def bind_assoc split_def)

lemma posts_only_v1_before_payment: "posts_only (v1_before_payment now client)"
  unfolding v1_before_payment_def
  by (intro posts_only_bind posts_only_case_prod posts_only_cart_and_item posts_only_configure
      posts_only_v1_add_option posts_only_v1_checkout)

lemma posts_only_v3_before_payment: "posts_only (v3_before_payment now client)"
  unfolding v3_before_payment_def
  by (intro posts_only_bind posts_only_case_prod posts_only_cart_and_item posts_only_configure
      posts_only_v3_add_options posts_only_v3_checkout)

lemma run_bind_cases:
  assumes "posts_only m"
  obtains (halted) es h where "m 0 = (es, Inl h)" and "run (bind m f) = (es, Some h)"
      and "\<forall>c \<in> set (calls es). fst c = POST"
    | (reached) es x where "m 0 = (es, Inr (x, length (calls es)))"
      and "\<forall>c \<in> set (calls es). fst c = POST"
      and "run (bind m f) =
             (es @ fst (f x (length (calls es))), outcome (snd (f x (length (calls es)))))"
proof -
  obtain es r where m0: "m 0 = (es, r)" by (cases "m 0")
  from assms have
    "(\<forall>c \<in> set (calls (fst (m 0))). fst c = POST) \<and>
     (\<forall>y n'. snd (m 0) = Inr (y, n') \<longrightarrow> n' = 0 + length (calls (fst (m 0))))"
    unfolding posts_only_def by (rule spec)
  then have
    posts: "\<forall>c \<in> set (calls (fst (m 0))). fst c = POST" and
    count: "\<forall>y n'. snd (m 0) = Inr (y, n') \<longrightarrow> n' = 0 + length (calls (fst (m 0)))"
    by blast+
  show thesis
  proof (cases r)
    case (Inl h)
    with m0 posts show thesis
      by (intro halted [of es h]) (simp_all add: run_eq bind_Inl outcome_def)
  next
    case (Inr v)
    obtain x n1 where v: "v = (x, n1)" by (cases v)
    with m0 Inr count have n1: "n1 = length (calls es)" by simp
    have "run (bind m f) = (es @ fst (f x n1), outcome (snd (f x n1)))"
      using m0 Inr v by (simp add: run_eq bind_Inr)
    with m0 Inr v n1 posts show thesis
      by (intro reached [of es x]) simp_all
  qed
qed

subsection \<open>Steps 7 and 8, case by case\<close>

lemma pay_order_fetch_error:
  assumes "get_reply client n = Inl e"
  shows "pay_order client orderID n =
           ([Call GET (''/me/order/'' @ orderID @ ''/availablePaymentMethod'') GNil],
            Inl (Fatal ''Error fetching payment methods: %v'' [AErr e]))"
  using assms by (simp add: pay_order_def bind_simps log_Fatalf_def halt_with_def)

lemma pay_order_empty:
  assumes "get_reply client n = Inr []"
  shows "pay_order client orderID n =
           ([Call GET (''/me/order/'' @ orderID @ ''/availablePaymentMethod'') GNil,
             Printf ''Available Payment Methods: %v\<newline>'' [AVal (GSlice [])]],
            Inl (Fatal ''No available payment methods found.'' []))"
  using assms by (simp add: pay_order_def bind_simps log_Fatal_def halt_with_def)

lemma pay_order_bad_id:
  assumes "get_reply client n = Inr (pm # pms)" and "\<forall>s. map_index pm ''id'' \<noteq> GNumber s"
  shows "pay_order client orderID n =
           ([Call GET (''/me/order/'' @ orderID @ ''/availablePaymentMethod'') GNil,
             Printf ''Available Payment Methods: %v\<newline>'' [AVal (GSlice (map GMap (pm # pms)))]],
            Inl (PanicAssert ''json.Number'' (map_index pm ''id'')))"
  using assms
  by (cases "map_index pm ''id''")
     (simp_all add: pay_order_def bind_simps assert_Number_def)

lemma pay_order_bad_type:
  assumes "get_reply client n = Inr (pm # pms)" and "map_index pm ''id'' = GNumber paymentID"
    and "\<forall>s. map_index pm ''type'' \<noteq> GString s"
  shows "pay_order client orderID n =
           ([Call GET (''/me/order/'' @ orderID @ ''/availablePaymentMethod'') GNil,
             Printf ''Available Payment Methods: %v\<newline>'' [AVal (GSlice (map GMap (pm # pms)))]],
            Inl (PanicAssert ''string'' (map_index pm ''type'')))"
  using assms
  by (cases "map_index pm ''type''")
     (simp_all add: pay_order_def bind_simps assert_string_def)

lemma pay_order_pays:
  assumes "get_reply client n = Inr (pm # pms)" and "map_index pm ''id'' = GNumber paymentID"
    and "map_index pm ''type'' = GString paymentType"
  shows "pay_order client orderID n =
           prepend
             [Call GET (''/me/order/'' @ orderID @ ''/availablePaymentMethod'') GNil,
              Printf ''Available Payment Methods: %v\<newline>'' [AVal (GSlice (map GMap (pm # pms)))],
              Call POST (''/me/order/'' @ orderID @ ''/pay'')
                (GMap [(''paymentMethod'',
                        GMap [(''id'', GNumber paymentID), (''type'', GString paymentType)])])]
             (case post_reply client (n + 1) of
                Inl err \<Rightarrow> ([], Inl (Fatal ''Error paying for the order: %v'' [AErr err]))
              | Inr paymentResponse \<Rightarrow>
                  ([Println ''Order has been successfully paid.''], Inr ((), n + 2)))"
  using assms
  by (simp add: pay_order_def bind_simps log_Fatalf_def
      halt_with_def fmt_Println_def emit_def add.assoc split: sum.splits)

lemma pay_order_calls:
  "\<exists>rest. calls (fst (pay_order client orderID n)) = methods_call orderID # rest \<and>
          (\<forall>c \<in> set rest. fst c = POST)"
proof (cases "get_reply client n")
  case (Inl e)
  then show ?thesis by (simp add: pay_order_fetch_error methods_call_def)
next
  case (Inr pms)
  show ?thesis
  proof (cases pms)
    case Nil
    with Inr show ?thesis by (simp add: pay_order_empty methods_call_def)
  next
    case (Cons pm pms')
    show ?thesis
    proof (cases "\<exists>s. map_index pm ''id'' = GNumber s")
      case False
      with Inr Cons show ?thesis by (simp add: pay_order_bad_id methods_call_def)
    next
      case True
      then obtain i where i: "map_index pm ''id'' = GNumber i" by blast
      show ?thesis
      proof (cases "\<exists>s. map_index pm ''type'' = GString s")
        case False
        with Inr Cons i show ?thesis by (simp add: pay_order_bad_type methods_call_def)
      next
        case True
        then obtain t where "map_index pm ''type'' = GString t" by blast
        with Inr Cons i show ?thesis
          by (simp add: pay_order_pays methods_call_def split: sum.splits)
      qed
    qed
  qed
qed

text \<open>
  In a run, the call numbered \<open>j\<close> is a GET only where the payment phase starts: the
  phases before it have completed with \<open>j\<close> calls, all of them POST.
\<close>

lemma payment_starts_at_GET:
  assumes m: "posts_only m"
    and r: "run (bind m (pay_order client)) = (es, h)"
    and j: "j < length (calls es)" and g: "fst (calls es ! j) = GET"
  shows "\<exists>es1 orderID. m 0 = (es1, Inr (orderID, j)) \<and> length (calls es1) = j \<and>
           es = es1 @ fst (pay_order client orderID j) \<and>
           h = outcome (snd (pay_order client orderID j))"
  using m
proof (cases rule: run_bind_cases [where f = "pay_order client"])
  case (halted es1 h1)
  with r have "es = es1" by simp
  with halted(3) j have "fst (calls es ! j) = POST" by simp
  with g show ?thesis by simp
next
  case (reached es1 orderID)
  let ?n = "length (calls es1)"
  from reached(3) r have es: "es = es1 @ fst (pay_order client orderID ?n)"
    and h: "h = outcome (snd (pay_order client orderID ?n))" by simp_all
  obtain rest where rest: "calls (fst (pay_order client orderID ?n)) = methods_call orderID # rest"
    and prest: "\<forall>c \<in> set rest. fst c = POST"
    using pay_order_calls by blast
  have cs: "calls es = calls es1 @ methods_call orderID # rest"
    using es rest by simp
  have "j = ?n"
  proof (rule ccontr)
    assume ne: "j \<noteq> ?n"
    show False
    proof (cases "j < ?n")
      case True
      then have "calls es ! j = calls es1 ! j" by (simp add: cs nth_append)
      with reached(2) True g show False by (metis verb.distinct(1) nth_mem)
    next
      case False
      with ne have gt: "j > ?n" by simp
      then have "calls es ! j = rest ! (j - ?n - 1)"
        by (simp add: cs nth_append nth_Cons')
      moreover have "j - ?n - 1 < length rest" using j gt by (simp add: cs)
      ultimately show False using prest g by (metis verb.distinct(1) nth_mem)
    qed
  qed
  with reached(1) es h show ?thesis by auto
qed

section \<open>From \<^verbatim>\<open>main\<close> to the workflow\<close>

lemma startup_started:
  assumes "started getenv NewClient client"
  shows "bind (startup getenv NewClient) f = f client"
  using assms
  by (intro ext) (simp add: started_def startup_def Let_def bind_simps)

lemma v1_main_started:
  assumes "started getenv NewClient client"
  shows "v1_main getenv NewClient now = run (v1_workflow now client)"
  using assms by (simp add: v1_main_def startup_started)

lemma v3_main_started:
  assumes "started getenv NewClient client"
  shows "v3_main getenv NewClient now = run (v3_workflow now client)"
  using assms by (simp add: v3_main_def startup_started)

lemma started_accept: "started env_set (accept client) client"
  by (simp add: started_def env_set_def accept_def)

text \<open>Either program, once started, is phases that only post, followed by the payment.\<close>

lemma main_split:
  assumes "main = v1_main \<or> main = v3_main" and "started getenv NewClient client"
  obtains m :: "string prog" where "posts_only m"
    and "main getenv NewClient now = run (bind m (pay_order client))"
  using assms
  by (metis v1_main_started v3_main_started v1_workflow_split v3_workflow_split
      posts_only_v1_before_payment posts_only_v3_before_payment)

section \<open>Evaluation of concrete runs\<close>

lemmas eval_simps =
  bind_simps bind_assoc v1_workflow_def v3_workflow_def cart_and_item_def configure.simps
  v1_configItems_def v3_configItems_def v1_add_option_def v3_add_options.simps v3_options_def
  v1_checkout_def v3_checkout_def pay_order_def map_index_def stub_def Let_def
  ParseInt_def ParseUint_def is_digit_def digit_val_def maxUint64_def
  show_int_def show_nat.simps digit_char_def sprint_v.simps
  Format_RFC3339_def AddDate_def norm_day.simps daysIn_def isLeap_def appendInt_def utc_def
  checkout_loop_unfold maxRetries_def time_Second_def option_body_def
  run_def log_Fatalf_def log_Fatal_def halt_with_def fmt_Println_def emit_def ret_def
  assert_string_def assert_Number_def noon_def v1_steps_ok_def v3_steps_ok_def

subsection \<open>Statements applied to the number of calls\<close>

lemma ret_apply: "ret x n = ([], Inr (x, n))"
  by (simp add: ret_def)

lemma halt_with_apply: "halt_with h n = ([], Inl h)"
  by (simp add: halt_with_def)

lemma log_Fatalf_apply: "log_Fatalf format args n = ([], Inl (Fatal format args))"
  by (simp add: log_Fatalf_def halt_with_def)

lemma log_Fatal_apply: "log_Fatal msg n = ([], Inl (Fatal msg []))"
  by (simp add: log_Fatal_def halt_with_def)

lemma fmt_Println_apply: "fmt_Println msg n = ([Println msg], Inr ((), n))"
  by (simp add: fmt_Println_def emit_def)

lemma fmt_Printf_apply: "fmt_Printf format args n = ([Printf format args], Inr ((), n))"
  by (simp add: fmt_Printf_def emit_def)

lemmas prog_simps =
  bind_simps ret_apply halt_with_apply log_Fatalf_apply log_Fatal_apply fmt_Println_apply
  fmt_Printf_apply

subsection \<open>Steps 1 to 3, case by case\<close>

lemma assert_string_other:
  "\<forall>s. x \<noteq> GString s \<Longrightarrow> assert_string x = halt_with (PanicAssert ''string'' x)"
  by (cases x) (simp_all add: assert_string_def)

lemma assert_Number_other:
  "\<forall>s. x \<noteq> GNumber s \<Longrightarrow> assert_Number x = halt_with (PanicAssert ''json.Number'' x)"
  by (cases x) (simp_all add: assert_Number_def)

lemma cart_and_item_create_error:
  assumes "post_reply client 0 = Inl e"
  shows "snd (cart_and_item f now client 0) = Inl (Fatal ''Error creating cart: %v'' [AErr e])"
    and "calls (fst (cart_and_item f now client 0)) = [create_call now]"
  using assms by (simp_all add: cart_and_item_def create_call_def prog_simps del: One_nat_def)

lemma cart_and_item_bad_cartId:
  assumes "post_reply client 0 = Inr cart" and "\<forall>s. map_index cart ''cartId'' \<noteq> GString s"
  shows "snd (cart_and_item f now client 0) = Inl (PanicAssert ''string'' (map_index cart ''cartId''))"
    and "calls (fst (cart_and_item f now client 0)) = [create_call now]"
  using assms
  by (simp_all add: cart_and_item_def create_call_def assert_string_other prog_simps del: One_nat_def)

lemma cart_and_item_assign_error:
  assumes "post_reply client 0 = Inr cart" and "map_index cart ''cartId'' = GString cartID"
    and "post_reply client 1 = Inl e"
  shows "snd (cart_and_item f now client 0) = Inl (Fatal ''Error assigning cart: %v'' [AErr e])"
    and "calls (fst (cart_and_item f now client 0)) = [create_call now, assign_call cartID]"
  using assms
  by (simp_all add: cart_and_item_def create_call_def assign_call_def prog_simps del: One_nat_def)

lemma cart_and_item_item_error:
  assumes "post_reply client 0 = Inr cart" and "map_index cart ''cartId'' = GString cartID"
    and "post_reply client 1 = Inr a" and "post_reply client 2 = Inl e"
  shows "snd (cart_and_item f now client 0) =
           Inl (Fatal ''Error adding server to cart: %v'' [AErr e])"
    and "calls (fst (cart_and_item f now client 0)) =
           [create_call now, assign_call cartID, item_call cartID]"
  using assms
  by (simp_all add: cart_and_item_def create_call_def assign_call_def item_call_def prog_simps del: One_nat_def)

lemma cart_and_item_bad_itemId:
  assumes "post_reply client 0 = Inr cart" and "map_index cart ''cartId'' = GString cartID"
    and "post_reply client 1 = Inr a" and "post_reply client 2 = Inr server"
    and "\<forall>s. map_index server ''itemId'' \<noteq> GNumber s"
  shows "snd (cart_and_item f now client 0) =
           Inl (PanicAssert ''json.Number'' (map_index server ''itemId''))"
    and "calls (fst (cart_and_item f now client 0)) =
           [create_call now, assign_call cartID, item_call cartID]"
  using assms
  by (simp_all add: cart_and_item_def create_call_def assign_call_def item_call_def assert_Number_other prog_simps del: One_nat_def)

lemma cart_and_item_conversion_error:
  assumes "post_reply client 0 = Inr cart" and "map_index cart ''cartId'' = GString cartID"
    and "post_reply client 1 = Inr a" and "post_reply client 2 = Inr server"
    and "map_index server ''itemId'' = GNumber s" and "ParseInt s = Inl e"
  shows "snd (cart_and_item f now client 0) = Inl (Fatal f [AErr e])"
    and "calls (fst (cart_and_item f now client 0)) =
           [create_call now, assign_call cartID, item_call cartID]"
  using assms
  by (simp_all add: cart_and_item_def create_call_def assign_call_def item_call_def prog_simps del: One_nat_def)

lemma cart_and_item_ok:
  assumes "post_reply client 0 = Inr cart" and "map_index cart ''cartId'' = GString cartID"
    and "post_reply client 1 = Inr a" and "post_reply client 2 = Inr server"
    and "map_index server ''itemId'' = GNumber s" and "ParseInt s = Inr itemID"
  shows "snd (cart_and_item f now client 0) = Inr ((cartID, itemID), 3)"
    and "calls (fst (cart_and_item f now client 0)) =
           [create_call now, assign_call cartID, item_call cartID]"
  using assms
  by (simp_all add: cart_and_item_def create_call_def assign_call_def item_call_def ret_def prog_simps del: One_nat_def)

text \<open>Either program starts with the steps 1 to 3; what follows does not matter when they halt.\<close>

lemma main_halts_in_cart_and_item:
  assumes "main = v1_main \<or> main = v3_main" and "started getenv NewClient client"
    and "\<And>f. snd (cart_and_item f now client 0) = Inl h"
  shows "snd (main getenv NewClient now) = Some h"
proof -
  have *: "snd (run (bind (cart_and_item f now client) K)) = Some h" for f and K :: "string \<times> int \<Rightarrow> unit prog"
  proof -
    obtain es where "cart_and_item f now client 0 = (es, Inl h)"
      using assms(3) [of f] by (cases "cart_and_item f now client 0") simp
    then show ?thesis by (simp add: run_eq bind_Inl outcome_def)
  qed
  from assms(1) show ?thesis
  proof
    assume "main = v1_main"
    then show ?thesis
      by (simp add: v1_main_started [OF assms(2)] v1_workflow_def *)
  next
    assume "main = v3_main"
    then show ?thesis
      by (simp add: v3_main_started [OF assms(2)] v3_workflow_def *)
  qed
qed

subsection \<open>\<^verbatim>\<open>ParseInt\<close> accepts exactly the well-formed integers\<close>

lemma foldl_digits_mono: "n \<le> foldl (\<lambda>n c. n * 10 + digit_val c) n cs"
proof (induction cs arbitrary: n)
  case Nil
  show ?case by simp
next
  case (Cons c cs)
  have "n \<le> n * 10 + digit_val c" by simp
  also have "\<dots> \<le> foldl (\<lambda>n c. n * 10 + digit_val c) (n * 10 + digit_val c) cs"
    by (rule Cons.IH)
  finally show ?case by simp
qed

lemma ParseUint_loop_Inr:
  "ParseUint_loop n cs = Inr v \<longleftrightarrow>
     list_all is_digit cs \<and> v = foldl (\<lambda>n c. n * 10 + digit_val c) n cs \<and>
     (cs \<noteq> [] \<longrightarrow> v \<le> maxUint64)"
proof (induction cs arbitrary: n)
  case Nil
  show ?case by auto
next
  case (Cons c cs)
  let ?n1 = "n * 10 + digit_val c"
  let ?v = "foldl (\<lambda>n c. n * 10 + digit_val c) ?n1 cs"
  have ge: "?n1 \<le> ?v" by (rule foldl_digits_mono)
  show ?case
  proof (cases "is_digit c \<and> n < maxUint64 div 10 + 1 \<and> ?n1 \<le> maxUint64")
    case True
    then have "ParseUint_loop n (c # cs) = ParseUint_loop ?n1 cs"
      by (simp add: Let_def)
    also have "\<dots> = Inr v \<longleftrightarrow>
        list_all is_digit cs \<and> v = ?v \<and> (cs \<noteq> [] \<longrightarrow> v \<le> maxUint64)"
      by (rule Cons.IH)
    finally show ?thesis using True ge by (cases cs) auto
  next
    case False
    then have "ParseUint_loop n (c # cs) \<noteq> Inr v"
      by (auto simp: Let_def)
    moreover have "\<not> (is_digit c \<and> ?v \<le> maxUint64)"
    proof
      assume a: "is_digit c \<and> ?v \<le> maxUint64"
      with ge have le: "?n1 \<le> maxUint64" by simp
      then have "n * 10 \<le> maxUint64" by simp
      then have "n < maxUint64 div 10 + 1" by (simp add: maxUint64_def)
      with a le False show False by simp
    qed
    ultimately show ?thesis by auto
  qed
qed

lemma ParseUint_Inr:
  "ParseUint s = Inr v \<longleftrightarrow>
     s \<noteq> [] \<and> list_all is_digit s \<and> v = decimal_value s \<and> v \<le> maxUint64"
  by (auto simp: ParseUint_def ParseUint_loop_Inr decimal_value_def)

lemma ParseInt_Inr:
  "ParseInt s = Inr i \<longleftrightarrow> well_formed_int64 s \<and> i = int64_value s"
proof (cases "s = []")
  case True
  then show ?thesis
    by (simp add: ParseInt_def well_formed_int64_def unsigned_part_def)
next
  case False
  let ?u = "unsigned_part s"
  have max: "(2::nat) ^ 63 \<le> maxUint64" by (simp add: maxUint64_def)
  show ?thesis
  proof (cases "ParseUint ?u")
    case (Inl e)
    then have "\<not> (?u \<noteq> [] \<and> list_all is_digit ?u \<and> decimal_value ?u \<le> maxUint64)"
      using ParseUint_Inr [of ?u "decimal_value ?u"] by auto
    moreover have "ParseInt s \<noteq> Inr i"
      using False Inl by (cases e) (simp_all add: ParseInt_def unsigned_part_def Let_def)
    ultimately show ?thesis
      using max by (auto simp: well_formed_int64_def int64_value_def split: if_splits)
  next
    case (Inr un)
    then have u: "?u \<noteq> []" "list_all is_digit ?u" "un = decimal_value ?u"
      by (simp_all add: ParseUint_Inr)
    define neg where "neg \<longleftrightarrow> hd s = CHR ''-''"
    have P: "ParseInt s =
        (if \<not> neg \<and> un \<ge> 2 ^ 63 then Inl (NumError ''ParseInt'' s ErrRange)
         else if neg \<and> un > 2 ^ 63 then Inl (NumError ''ParseInt'' s ErrRange)
         else Inr (if neg then - int un else int un))"
      using False Inr by (simp add: ParseInt_def unsigned_part_def Let_def neg_def)
    have V: "int64_value s = (if neg then - int un else int un)"
      using False u(3) by (simp add: int64_value_def neg_def)
    have W: "well_formed_int64 s \<longleftrightarrow> - (2 ^ 63) \<le> int64_value s \<and> int64_value s < 2 ^ 63"
      using u by (simp add: well_formed_int64_def)
    have N: "int un < 2 ^ 63 \<longleftrightarrow> un < 2 ^ 63" "int un \<le> 2 ^ 63 \<longleftrightarrow> un \<le> 2 ^ 63"
      by (simp_all add: of_nat_less_iff [of un "2 ^ 63", symmetric]
          of_nat_le_iff [of un "2 ^ 63", symmetric] del: of_nat_less_iff of_nat_le_iff)
    show ?thesis
    proof (cases neg)
      case True
      have "- int un < 2 ^ 63" by (rule le_less_trans [of _ 0]) simp_all
      with True N show ?thesis unfolding P W V by auto
    next
      case False
      have "- (2 ^ 63) \<le> int un" by (rule order_trans [of _ 0]) simp_all
      with False N show ?thesis unfolding P W V by auto
    qed
  qed
qed

lemma ParseInt_Inl:
  "(\<exists>e. ParseInt s = Inl e) \<longleftrightarrow> \<not> well_formed_int64 s"
proof -
  have "(\<exists>e. ParseInt s = Inl e) \<longleftrightarrow> \<not> (\<exists>i. ParseInt s = Inr i)"
    by (cases "ParseInt s") auto
  then show ?thesis by (simp add: ParseInt_Inr)
qed

lemma ParseInt_error_kind:
  "ParseInt s = Inl e \<Longrightarrow> e = NumError ''ParseInt'' s ErrSyntax \<or> e = NumError ''ParseInt'' s ErrRange"
  by (auto simp: ParseInt_def Let_def split: if_splits sum.splits numerr.splits)

subsection \<open>From the steps 1 to 3 to the whole run\<close>

lemma cart_and_item_ok_events:
  assumes "post_reply client 0 = Inr cart" and "map_index cart ''cartId'' = GString cartID"
    and "post_reply client 1 = Inr a" and "post_reply client 2 = Inr server"
    and "map_index server ''itemId'' = GNumber s" and "ParseInt s = Inr itemID"
  shows "cart_and_item f now client 0 =
           ([Call POST ''/order/cart''
               (GMap [(''ovhSubsidiary'', GString ''US''),
                      (''description'', GString ''Automated Dedicated Server Order''),
                      (''expire'', GString (Format_RFC3339 (AddDate now 0 1 0)))]),
             Printf ''Created Cart with ID: %s\<newline>'' [AStr cartID],
             Call POST (''/order/cart/'' @ cartID @ ''/assign'') GNil,
             Println ''Assigned cart to the logged-in user.'',
             Call POST (''/order/cart/'' @ cartID @ ''/baremetalServers'')
               (GMap [(''duration'', GString ''P1M''), (''planCode'', GString ''24rise01-us''),
                      (''pricingMode'', GString ''default''), (''quantity'', GInt 1)]),
             Printf ''Added Server to Cart with Item ID: %d\<newline>'' [AInt itemID]],
            Inr ((cartID, itemID), 3))"
  using assms by (simp add: cart_and_item_def prog_simps del: One_nat_def)

lemma main_cart_and_item_Inl:
  assumes "main = v1_main \<or> main = v3_main" and "started getenv NewClient client"
    and "\<And>f. snd (cart_and_item f now client 0) = Inl (H f)"
  shows "\<exists>f. (f = ''Error converting itemId to int64: %v'' \<or>
              f = ''Error converting itemId to integer: %v'') \<and>
             main getenv NewClient now = (fst (cart_and_item f now client 0), Some (H f))"
proof -
  have *: "run (bind (cart_and_item f now client) K) = (fst (cart_and_item f now client 0), Some (H f))"
    for f and K :: "string \<times> int \<Rightarrow> unit prog"
  proof -
    have "cart_and_item f now client 0 = (fst (cart_and_item f now client 0), Inl (H f))"
      using assms(3) [of f] by (cases "cart_and_item f now client 0") simp
    then show ?thesis by (simp add: run_eq bind_Inl outcome_def)
  qed
  from assms(1) show ?thesis
  proof
    assume "main = v1_main"
    then show ?thesis
      by (intro exI [of _ "''Error converting itemId to int64: %v''"])
         (simp add: v1_main_started [OF assms(2)] v1_workflow_def *)
  next
    assume "main = v3_main"
    then show ?thesis
      by (intro exI [of _ "''Error converting itemId to integer: %v''"])
         (simp add: v3_main_started [OF assms(2)] v3_workflow_def *)
  qed
qed

lemma main_after_item:
  assumes "main = v1_main \<or> main = v3_main" and "started getenv NewClient client"
    and "cart_and_item ''Error converting itemId to int64: %v'' now client 0 =
           (pre, Inr ((cartID, itemID), 3))"
    and "cart_and_item ''Error converting itemId to integer: %v'' now client 0 =
           (pre, Inr ((cartID, itemID), 3))"
  shows "\<exists>rest os. fst (main getenv NewClient now) =
           pre @ Call POST (''/order/cart/'' @ cartID @ ''/item/'' @ show_int itemID @ ''/configuration'')
                   (GMap [(''label'', GString ''dedicated_os''), (''value'', GString os)]) # rest"
  using assms(1)
proof
  assume "main = v1_main"
  then show ?thesis
    by (simp add: v1_main_started [OF assms(2)] v1_workflow_def run_eq bind_Inr [where m = "cart_and_item ''Error converting itemId to int64: %v'' now client" and n = 0,
          OF assms(3)]
        v1_configItems_def bind_assoc prog_simps)
next
  assume "main = v3_main"
  then show ?thesis
    by (simp add: v3_main_started [OF assms(2)] v3_workflow_def run_eq bind_Inr [where m = "cart_and_item ''Error converting itemId to integer: %v'' now client" and n = 0,
          OF assms(4)]
        v3_configItems_def bind_assoc prog_simps)
qed

lemma int64_value_12345: "well_formed_int64 ''12345'' \<and> int64_value ''12345'' = 12345"
  by (simp add: well_formed_int64_def int64_value_def unsigned_part_def decimal_value_def
      is_digit_def digit_val_def)

subsection \<open>The steps 1 to 5 when they succeed\<close>

lemma answered_okE:
  assumes "answered_ok client n"
  obtains m where "post_reply client n = Inr m"
  using assms by (cases "post_reply client n") (simp_all add: answered_ok_def)

lemma item_added_events:
  assumes "item_added client cartID itemID"
  shows "\<exists>pre. (\<forall>f. cart_and_item f now client 0 = (pre, Inr ((cartID, itemID), 3))) \<and>
           calls pre = [create_call now, assign_call cartID, item_call cartID] \<and>
           sleeps pre = []"
proof -
  from assms obtain cart where c: "post_reply client 0 = Inr cart"
    "map_index cart ''cartId'' = GString cartID"
    by (auto simp: item_added_def received_cartId_def split: sum.splits dyn.splits)
  from assms obtain a where a: "post_reply client 1 = Inr a"
    by (auto simp: item_added_def elim: answered_okE)
  from assms obtain server s where s: "post_reply client 2 = Inr server"
    "map_index server ''itemId'' = GNumber s" "ParseInt s = Inr itemID"
    by (auto simp: item_added_def received_itemId_def split: sum.splits dyn.splits)
  show ?thesis
    by (simp add: cart_and_item_ok_events [OF c a s] create_call_def assign_call_def item_call_def)
qed

lemma configure_ok:
  assumes "\<forall>i<length cfg. answered_ok client (n + i)"
  shows "\<exists>es. configure client cartID itemID cfg n = (es, Inr ((), n + length cfg)) \<and>
           calls es = map (config_call cartID itemID) cfg \<and> sleeps es = []"
  using assms
proof (induction cfg arbitrary: n)
  case Nil
  show ?case by (simp add: ret_apply)
next
  case (Cons config cfg)
  from Cons.prems have "answered_ok client (n + 0)" by blast
  then obtain m where m: "post_reply client n = Inr m" by (auto elim: answered_okE)
  have "\<forall>i<length cfg. answered_ok client (n + 1 + i)"
  proof (intro allI impI)
    fix i assume "i < length cfg"
    then have "Suc i < length (config # cfg)" by simp
    with Cons.prems have "answered_ok client (n + Suc i)" by blast
    then show "answered_ok client (n + 1 + i)" by simp
  qed
  from Cons.IH [OF this] obtain es where
    es: "configure client cartID itemID cfg (n + 1) = (es, Inr ((), n + 1 + length cfg))"
    and cs: "calls es = map (config_call cartID itemID) cfg" and sl: "sleeps es = []"
    by blast
  show ?case
    by (simp add: prog_simps m es cs sl config_call_def del: One_nat_def)
qed

lemma v1_add_option_ok:
  assumes "answered_ok client n"
  shows "\<exists>es. v1_add_option client cartID itemID n = (es, Inr ((), n + 1)) \<and>
           calls es = [option_call cartID itemID ''vrack-bandwidth-1000-24rise-us''] \<and>
           sleeps es = []"
proof -
  from assms obtain m where "post_reply client n = Inr m" by (rule answered_okE)
  then show ?thesis
    by (simp add: v1_add_option_def prog_simps option_call_def option_body_def)
qed

lemma v1_add_option_error:
  assumes "post_reply client n = Inl e"
  shows "v1_add_option client cartID itemID n =
           ([Call POST (''/order/cart/'' @ cartID @ ''/baremetalServers/options'')
               (option_body itemID ''vrack-bandwidth-1000-24rise-us'')],
            Inl (Fatal ''Error adding option: %v'' [AErr e]))"
  using assms by (simp add: v1_add_option_def prog_simps)

lemma v3_add_options_ok:
  assumes "\<forall>i<length opts. answered_ok client (n + i)"
  shows "\<exists>es. v3_add_options client cartID itemID opts n = (es, Inr ((), n + length opts)) \<and>
           calls es = map (option_call cartID itemID) opts \<and> sleeps es = []"
  using assms
proof (induction opts arbitrary: n)
  case Nil
  show ?case by (simp add: ret_apply)
next
  case (Cons planCode opts)
  from Cons.prems have "answered_ok client (n + 0)" by blast
  then obtain m where m: "post_reply client n = Inr m" by (auto elim: answered_okE)
  have "\<forall>i<length opts. answered_ok client (n + 1 + i)"
  proof (intro allI impI)
    fix i assume "i < length opts"
    then have "Suc i < length (planCode # opts)" by simp
    with Cons.prems have "answered_ok client (n + Suc i)" by blast
    then show "answered_ok client (n + 1 + i)" by simp
  qed
  from Cons.IH [OF this] obtain es where
    es: "v3_add_options client cartID itemID opts (n + 1) = (es, Inr ((), n + 1 + length opts))"
    and cs: "calls es = map (option_call cartID itemID) opts" and sl: "sleeps es = []"
    by blast
  show ?case
    by (simp add: prog_simps m es cs sl option_call_def option_body_def del: One_nat_def)
qed

lemma v3_add_options_error:
  assumes "k < length opts" and "\<forall>i<k. answered_ok client (n + i)"
    and "post_reply client (n + k) = Inl e"
  shows "\<exists>es. v3_add_options client cartID itemID opts n =
             (es, Inl (Fatal ''Error adding option with planCode %s: %v''
                         [AStr (opts ! k), AErr e])) \<and>
           calls es = map (option_call cartID itemID) (take (k + 1) opts)"
  using assms
proof (induction opts arbitrary: n k)
  case Nil
  then show ?case by simp
next
  case (Cons planCode opts)
  show ?case
  proof (cases k)
    case 0
    with Cons.prems have "post_reply client n = Inl e" by simp
    with 0 show ?thesis
      by (simp add: prog_simps option_call_def option_body_def)
  next
    case (Suc k')
    from Cons.prems Suc have "answered_ok client (n + 0)" by blast
    then obtain m where m: "post_reply client n = Inr m" by (auto elim: answered_okE)
    have k': "k' < length opts" using Cons.prems(1) Suc by simp
    have ok: "\<forall>i<k'. answered_ok client (n + 1 + i)"
    proof (intro allI impI)
      fix i assume "i < k'"
      then have "Suc i < k" using Suc by simp
      with Cons.prems(2) have "answered_ok client (n + Suc i)" by blast
      then show "answered_ok client (n + 1 + i)" by simp
    qed
    have e: "post_reply client (n + 1 + k') = Inl e" using Cons.prems(3) Suc by simp
    from Cons.IH [OF k' ok e] obtain es where
      es: "v3_add_options client cartID itemID opts (n + 1) =
             (es, Inl (Fatal ''Error adding option with planCode %s: %v'' [AStr (opts ! k'), AErr e]))"
      and cs: "calls es = map (option_call cartID itemID) (take (k' + 1) opts)"
      by blast
    show ?thesis
      by (simp add: prog_simps m es cs Suc option_call_def option_body_def del: One_nat_def)
  qed
qed

lemma list_all_upt: "list_all P [a..<b] \<longleftrightarrow> (\<forall>n. a \<le> n \<and> n < b \<longrightarrow> P n)"
  by (auto simp: list_all_iff)

lemma through_configuration:
  assumes "item_added client cartID itemID"
    and "list_all (answered_ok client) [3..<3 + length cfg]"
  shows "\<exists>pre. calls pre = [create_call now, assign_call cartID, item_call cartID] @
                            map (config_call cartID itemID) cfg \<and>
           sleeps pre = [] \<and>
           bind (cart_and_item f now client)
             (\<lambda>(c, i). bind (configure client c i cfg) (K c i)) 0 =
           prepend pre (K cartID itemID () (3 + length cfg))"
proof -
  from item_added_events [OF assms(1)] obtain pre1 where
    p1: "cart_and_item f now client 0 = (pre1, Inr ((cartID, itemID), 3))"
    and c1: "calls pre1 = [create_call now, assign_call cartID, item_call cartID]"
    and s1: "sleeps pre1 = []"
    by blast
  from assms(2) have "\<forall>i<length cfg. answered_ok client (3 + i)"
    by (simp add: list_all_upt)
  from configure_ok [OF this] obtain pre2 where
    p2: "configure client cartID itemID cfg 3 = (pre2, Inr ((), 3 + length cfg))"
    and c2: "calls pre2 = map (config_call cartID itemID) cfg" and s2: "sleeps pre2 = []"
    by blast
  have "bind (cart_and_item f now client) (\<lambda>(c, i). bind (configure client c i cfg) (K c i)) 0 =
      prepend pre1 (bind (configure client cartID itemID cfg) (K cartID itemID) 3)"
    by (simp add: bind_Inr [where m = "cart_and_item f now client" and n = 0, OF p1])
  also have "\<dots> = prepend (pre1 @ pre2) (K cartID itemID () (3 + length cfg))"
    by (simp add: bind_Inr [where m = "configure client cartID itemID cfg" and n = 3, OF p2])
  finally show ?thesis
    using c1 c2 s1 s2 by (intro exI [of _ "pre1 @ pre2"]) simp
qed

lemma v1_through_configuration:
  assumes "item_added client cartID itemID" and "list_all (answered_ok client) [3..<6]"
  shows "\<exists>pre. calls pre = [create_call now, assign_call cartID, item_call cartID] @
                            map (config_call cartID itemID) v1_configItems \<and>
           sleeps pre = [] \<and>
           v1_workflow now client 0 =
           prepend pre (bind (v1_add_option client cartID itemID)
                          (\<lambda>_. bind (v1_checkout client cartID) (pay_order client)) 6)"
proof -
  have l: "list_all (answered_ok client) [3..<3 + length v1_configItems]"
    using assms(2) by (simp add: v1_configItems_def)
  from through_configuration [OF assms(1) l, of now "''Error converting itemId to int64: %v''"
      "\<lambda>c i _. bind (v1_add_option client c i) (\<lambda>_. bind (v1_checkout client c) (pay_order client))"]
  show ?thesis
    by (simp add: v1_workflow_def v1_configItems_def)
qed

lemma v3_through_configuration:
  assumes "item_added client cartID itemID" and "list_all (answered_ok client) [3..<6]"
  shows "\<exists>pre. calls pre = [create_call now, assign_call cartID, item_call cartID] @
                            map (config_call cartID itemID) v3_configItems \<and>
           sleeps pre = [] \<and>
           v3_workflow now client 0 =
           prepend pre (bind (v3_add_options client cartID itemID v3_options)
                          (\<lambda>_. bind (v3_checkout client cartID) (pay_order client)) 6)"
proof -
  have l: "list_all (answered_ok client) [3..<3 + length v3_configItems]"
    using assms(2) by (simp add: v3_configItems_def)
  from through_configuration [OF assms(1) l, of now "''Error converting itemId to integer: %v''"
      "\<lambda>c i _. bind (v3_add_options client c i v3_options)
                 (\<lambda>_. bind (v3_checkout client c) (pay_order client))"]
  show ?thesis
    by (simp add: v3_workflow_def v3_configItems_def)
qed

lemma v1_through_option:
  assumes "item_added client cartID itemID" and "list_all (answered_ok client) [3..<7]"
  shows "\<exists>pre. calls pre = [create_call now, assign_call cartID, item_call cartID] @
                            map (config_call cartID itemID) v1_configItems @
                            [option_call cartID itemID ''vrack-bandwidth-1000-24rise-us''] \<and>
           sleeps pre = [] \<and>
           v1_workflow now client 0 =
           prepend pre (bind (v1_checkout client cartID) (pay_order client) 7)"
proof -
  from assms(2) have l: "list_all (answered_ok client) [3..<6]" and a: "answered_ok client 6"
    by (simp_all add: list_all_upt)
  from v1_through_configuration [OF assms(1) l] obtain pre1 where
    c1: "calls pre1 = [create_call now, assign_call cartID, item_call cartID] @
                       map (config_call cartID itemID) v1_configItems"
    and s1: "sleeps pre1 = []"
    and w: "v1_workflow now client 0 =
           prepend pre1 (bind (v1_add_option client cartID itemID)
                          (\<lambda>_. bind (v1_checkout client cartID) (pay_order client)) 6)"
    by blast
  from v1_add_option_ok [OF a] obtain pre2 where
    p2: "v1_add_option client cartID itemID 6 = (pre2, Inr ((), 6 + 1))"
    and c2: "calls pre2 = [option_call cartID itemID ''vrack-bandwidth-1000-24rise-us'']"
    and s2: "sleeps pre2 = []"
    by blast
  have "v1_workflow now client 0 =
      prepend (pre1 @ pre2) (bind (v1_checkout client cartID) (pay_order client) 7)"
    by (simp add: w bind_Inr [where m = "v1_add_option client cartID itemID" and n = 6, OF p2])
  with c1 c2 s1 s2 show ?thesis
    by (intro exI [of _ "pre1 @ pre2"]) simp
qed

section \<open>The claims\<close>

text \<open>
  C6. If the fetched payment-method sequence is empty, the program stops with the fatal
  message \<^verbatim>\<open>No available payment methods found.\<close>, which is not the message of a failed
  fetch, and the fetch is the last remote call of the run: the pay call is never made.
  Stated for both programs: whenever the call numbered \<open>j\<close> of a run is the GET and it is
  answered by the empty sequence.
\<close>

theorem C6_empty_payment_methods:
  assumes "main = v1_main \<or> main = v3_main"
    and "started getenv NewClient client"
    and "main getenv NewClient now = (es, h)"
    and "j < length (calls es)" and "fst (calls es ! j) = GET"
    and "get_reply client j = Inr []"
  shows "h = Some (Fatal ''No available payment methods found.'' []) \<and>
         length (calls es) = j + 1"
proof -
  from assms(1,2) obtain m :: "string prog" where m: "posts_only m"
    and r: "main getenv NewClient now = run (bind m (pay_order client))"
    by (rule main_split)
  from r assms(3) have "run (bind m (pay_order client)) = (es, h)" by simp
  from payment_starts_at_GET [OF m this assms(4,5)]
  obtain es1 orderID where "length (calls es1) = j"
    and "es = es1 @ fst (pay_order client orderID j)"
    and "h = outcome (snd (pay_order client orderID j))" by blast
  then show ?thesis
    by (simp add: pay_order_empty [OF assms(6)] outcome_def)
qed

theorem C6_witness:
  "get_reply (stub (v1_steps_ok @ [Object [(''orderId'', GString ''o-9'')], Objects []])) 8 = Inr [] \<and>
   snd (v1_main env_set
          (accept (stub (v1_steps_ok @ [Object [(''orderId'', GString ''o-9'')], Objects []]))) noon) =
     Some (Fatal ''No available payment methods found.'' []) \<and>
   length (calls (fst (v1_main env_set
          (accept (stub (v1_steps_ok @ [Object [(''orderId'', GString ''o-9'')], Objects []]))) noon))) = 8 + 1"
proof -
  let ?client = "stub (v1_steps_ok @ [Object [(''orderId'', GString ''o-9'')], Objects []])"
  let ?run = "run (v1_workflow noon ?client)"
  have st: "started env_set (accept ?client) ?client" by (rule started_accept)
  have r: "v1_main env_set (accept ?client) noon = (fst ?run, snd ?run)"
    by (simp add: v1_main_started [OF st])
  have j: "8 < length (calls (fst ?run))" by (simp add: eval_simps)
  have g: "fst (calls (fst ?run) ! 8) = GET" by (simp add: eval_simps)
  have e: "get_reply ?client 8 = Inr []" by (simp add: stub_def v1_steps_ok_def)
  have d: "v1_main = v1_main \<or> v1_main = v3_main" by simp
  note c = C6_empty_payment_methods [where main = v1_main and getenv = env_set
      and NewClient = "accept ?client" and client = ?client and now = noon
      and es = "fst ?run" and h = "snd ?run" and j = 8, OF d st r j g e]
  show ?thesis
    apply (subst v1_main_started [OF st])+
    apply (rule conjI)
     apply (rule e)
    apply (rule c)
    done
qed

text \<open>
  C10. The response fields other than the parsed \<^verbatim>\<open>itemId\<close> are read by unchecked type
  assertions. In both programs the run ends by the runtime panic of the assertion, not by
  a fatal message, in each of these cases: the answer to CreateCart has no string
  \<^verbatim>\<open>cartId\<close>; the answer to AddItem has an \<^verbatim>\<open>itemId\<close> that is not a number token; the
  first fetched payment method has an \<^verbatim>\<open>id\<close> that is not a number token; its \<^verbatim>\<open>id\<close> is
  a number token and its \<^verbatim>\<open>type\<close> is not a string.
\<close>

theorem C10_unchecked_assertions_panic:
  assumes "main = v1_main \<or> main = v3_main" and "started getenv NewClient client"
  shows
    "(post_reply client 0 = Inr cart \<and> (\<forall>s. map_index cart ''cartId'' \<noteq> GString s) \<longrightarrow>
        snd (main getenv NewClient now) = Some (PanicAssert ''string'' (map_index cart ''cartId''))) \<and>
     (post_reply client 0 = Inr cart \<and> map_index cart ''cartId'' = GString cartID \<and>
      post_reply client 1 = Inr a \<and> post_reply client 2 = Inr server \<and>
      (\<forall>s. map_index server ''itemId'' \<noteq> GNumber s) \<longrightarrow>
        snd (main getenv NewClient now) =
          Some (PanicAssert ''json.Number'' (map_index server ''itemId''))) \<and>
     (j < length (calls (fst (main getenv NewClient now))) \<and>
      fst (calls (fst (main getenv NewClient now)) ! j) = GET \<and>
      get_reply client j = Inr (pm # pms) \<and> (\<forall>s. map_index pm ''id'' \<noteq> GNumber s) \<longrightarrow>
        snd (main getenv NewClient now) = Some (PanicAssert ''json.Number'' (map_index pm ''id''))) \<and>
     (j < length (calls (fst (main getenv NewClient now))) \<and>
      fst (calls (fst (main getenv NewClient now)) ! j) = GET \<and>
      get_reply client j = Inr (pm # pms) \<and> map_index pm ''id'' = GNumber paymentID \<and>
      (\<forall>s. map_index pm ''type'' \<noteq> GString s) \<longrightarrow>
        snd (main getenv NewClient now) = Some (PanicAssert ''string'' (map_index pm ''type'')))"
proof (intro conjI impI; (elim conjE)?)
  assume "post_reply client 0 = Inr cart" and "\<forall>s. map_index cart ''cartId'' \<noteq> GString s"
  then have "\<And>f. snd (cart_and_item f now client 0) =
      Inl (PanicAssert ''string'' (map_index cart ''cartId''))"
    by (rule cart_and_item_bad_cartId(1))
  with assms show "snd (main getenv NewClient now) =
      Some (PanicAssert ''string'' (map_index cart ''cartId''))"
    by (rule main_halts_in_cart_and_item)
next
  assume "post_reply client 0 = Inr cart" and "map_index cart ''cartId'' = GString cartID"
    and "post_reply client 1 = Inr a" and "post_reply client 2 = Inr server"
    and "\<forall>s. map_index server ''itemId'' \<noteq> GNumber s"
  then have "\<And>f. snd (cart_and_item f now client 0) =
      Inl (PanicAssert ''json.Number'' (map_index server ''itemId''))"
    by (rule cart_and_item_bad_itemId(1))
  with assms show "snd (main getenv NewClient now) =
      Some (PanicAssert ''json.Number'' (map_index server ''itemId''))"
    by (rule main_halts_in_cart_and_item)
next
  from assms obtain m :: "string prog" where m: "posts_only m"
    and r: "main getenv NewClient now = run (bind m (pay_order client))"
    by (rule main_split)
  let ?es = "fst (main getenv NewClient now)" and ?h = "snd (main getenv NewClient now)"
  have run: "run (bind m (pay_order client)) = (?es, ?h)" by (simp add: r)
  {
    assume j: "j < length (calls ?es)" and g: "fst (calls ?es ! j) = GET"
      and pms: "get_reply client j = Inr (pm # pms)"
      and bad: "\<forall>s. map_index pm ''id'' \<noteq> GNumber s"
    from payment_starts_at_GET [OF m run j g]
    obtain orderID where "?h = outcome (snd (pay_order client orderID j))" by blast
    then show "?h = Some (PanicAssert ''json.Number'' (map_index pm ''id''))"
      by (simp add: pay_order_bad_id [OF pms bad] outcome_def)
  }
  {
    assume j: "j < length (calls ?es)" and g: "fst (calls ?es ! j) = GET"
      and pms: "get_reply client j = Inr (pm # pms)"
      and id: "map_index pm ''id'' = GNumber paymentID"
      and bad: "\<forall>s. map_index pm ''type'' \<noteq> GString s"
    from payment_starts_at_GET [OF m run j g]
    obtain orderID where "?h = outcome (snd (pay_order client orderID j))" by blast
    then show "?h = Some (PanicAssert ''string'' (map_index pm ''type''))"
      by (simp add: pay_order_bad_type [OF pms id bad] outcome_def)
  }
qed

theorem C10_witness:
  "snd (v1_main env_set (accept (stub [Object []])) noon) = Some (PanicAssert ''string'' GNil) \<and>
   snd (v3_main env_set
          (accept (stub [Object [(''cartId'', GString ''c-1'')], Object [],
                         Object [(''itemId'', GString ''42'')]])) noon) =
     Some (PanicAssert ''json.Number'' (GString ''42'')) \<and>
   snd (v1_main env_set
          (accept (stub (v1_steps_ok @
             [Object [(''orderId'', GString ''o-9'')],
              Objects [[(''id'', GString ''A1''), (''type'', GString ''credit'')]]]))) noon) =
     Some (PanicAssert ''json.Number'' (GString ''A1'')) \<and>
   snd (v3_main env_set
          (accept (stub (v3_steps_ok @
             [Object [(''orderId'', GString ''o-9'')],
              Objects [[(''id'', GNumber ''7'')]]]))) noon) =
     Some (PanicAssert ''string'' GNil)"
proof (intro conjI)
  let ?c = "stub [Object []]"
  have d: "v1_main = v1_main \<or> v1_main = v3_main" by simp
  have st: "started env_set (accept ?c) ?c" by (rule started_accept)
  have p: "post_reply ?c 0 = Inr [] \<and> (\<forall>s. map_index [] ''cartId'' \<noteq> GString s)"
    by (simp add: stub_def map_index_def)
  from C10_unchecked_assertions_panic [where main = v1_main and client = ?c and cart = "[]"
      and now = noon, OF d st, THEN conjunct1, THEN mp, OF p]
  show "snd (v1_main env_set (accept ?c) noon) = Some (PanicAssert ''string'' GNil)"
    by (simp add: map_index_def)
next
  let ?c = "stub [Object [(''cartId'', GString ''c-1'')], Object [],
                  Object [(''itemId'', GString ''42'')]]"
  have d: "v3_main = v1_main \<or> v3_main = v3_main" by simp
  have st: "started env_set (accept ?c) ?c" by (rule started_accept)
  have p: "post_reply ?c 0 = Inr [(''cartId'', GString ''c-1'')] \<and>
      map_index [(''cartId'', GString ''c-1'')] ''cartId'' = GString ''c-1'' \<and>
      post_reply ?c 1 = Inr [] \<and> post_reply ?c 2 = Inr [(''itemId'', GString ''42'')] \<and>
      (\<forall>s. map_index [(''itemId'', GString ''42'')] ''itemId'' \<noteq> GNumber s)"
    by (simp add: stub_def map_index_def)
  from C10_unchecked_assertions_panic [where main = v3_main and client = ?c and now = noon,
      OF d st, THEN conjunct2, THEN conjunct1, THEN mp, OF p]
  show "snd (v3_main env_set (accept ?c) noon) =
      Some (PanicAssert ''json.Number'' (GString ''42''))"
    by (simp add: map_index_def)
next
  let ?pm = "[(''id'', GString ''A1''), (''type'', GString ''credit'')]"
  let ?c = "stub (v1_steps_ok @ [Object [(''orderId'', GString ''o-9'')], Objects [?pm]])"
  have d: "v1_main = v1_main \<or> v1_main = v3_main" by simp
  have st: "started env_set (accept ?c) ?c" by (rule started_accept)
  have p: "8 < length (calls (fst (v1_main env_set (accept ?c) noon))) \<and>
      fst (calls (fst (v1_main env_set (accept ?c) noon)) ! 8) = GET \<and>
      get_reply ?c 8 = Inr (?pm # []) \<and> (\<forall>s. map_index ?pm ''id'' \<noteq> GNumber s)"
    unfolding v1_main_started [OF st] by (simp add: eval_simps)
  from C10_unchecked_assertions_panic [where main = v1_main and client = ?c and now = noon
      and j = 8, OF d st, THEN conjunct2, THEN conjunct2, THEN conjunct1, THEN mp, OF p]
  show "snd (v1_main env_set (accept ?c) noon) =
      Some (PanicAssert ''json.Number'' (GString ''A1''))"
    by (simp add: map_index_def)
next
  let ?pm = "[(''id'', GNumber ''7'')]"
  let ?c = "stub (v3_steps_ok @ [Object [(''orderId'', GString ''o-9'')], Objects [?pm]])"
  have d: "v3_main = v1_main \<or> v3_main = v3_main" by simp
  have st: "started env_set (accept ?c) ?c" by (rule started_accept)
  have p: "11 < length (calls (fst (v3_main env_set (accept ?c) noon))) \<and>
      fst (calls (fst (v3_main env_set (accept ?c) noon)) ! 11) = GET \<and>
      get_reply ?c 11 = Inr (?pm # []) \<and> map_index ?pm ''id'' = GNumber ''7'' \<and>
      (\<forall>s. map_index ?pm ''type'' \<noteq> GString s)"
    unfolding v3_main_started [OF st] by (simp add: eval_simps)
  from C10_unchecked_assertions_panic [where main = v3_main and client = ?c and now = noon
      and j = 11, OF d st, THEN conjunct2, THEN conjunct2, THEN conjunct2, THEN mp, OF p]
  show "snd (v3_main env_set (accept ?c) noon) = Some (PanicAssert ''string'' GNil)"
    by (simp add: map_index_def)
qed

text \<open>
  C5, as stated, fails: the first payment method is used only when its \<^verbatim>\<open>id\<close> is a number
  token and its \<^verbatim>\<open>type\<close> a string. With the sequence of the specification, whose
  identifiers are the strings \<^verbatim>\<open>A1\<close> and \<^verbatim>\<open>B2\<close>, the type assertion on the first
  \<^verbatim>\<open>id\<close> panics after the fetch (the ninth call) and no pay call is made.
\<close>

theorem C5_counterexample:
  "snd (v1_main env_set
          (accept (stub (v1_steps_ok @
             [Object [(''orderId'', GString ''o-9'')],
              Objects [[(''id'', GString ''A1''), (''type'', GString ''credit'')],
                       [(''id'', GString ''B2''), (''type'', GString ''ovh-account'')]]]))) noon) =
     Some (PanicAssert ''json.Number'' (GString ''A1'')) \<and>
   map fst (calls (fst (v1_main env_set
          (accept (stub (v1_steps_ok @
             [Object [(''orderId'', GString ''o-9'')],
              Objects [[(''id'', GString ''A1''), (''type'', GString ''credit'')],
                       [(''id'', GString ''B2''), (''type'', GString ''ovh-account'')]]]))) noon))) =
     [POST, POST, POST, POST, POST, POST, POST, POST, GET]"
  unfolding v1_main_started [OF started_accept] by (simp add: eval_simps)

text \<open>
  C5, amended. In both programs, whenever the fetch (the call numbered \<open>j\<close>) is answered by
  a non-empty sequence whose first element has a number token as \<^verbatim>\<open>id\<close> and a string as
  \<^verbatim>\<open>type\<close>, the next and last remote call is the pay call of the same order, with exactly
  that \<^verbatim>\<open>id\<close>, still a number token, and that \<^verbatim>\<open>type\<close>, whatever the other elements are.
\<close>

theorem C5_pays_with_first_method:
  assumes "main = v1_main \<or> main = v3_main" and "started getenv NewClient client"
    and "main getenv NewClient now = (es, h)"
    and "j < length (calls es)" and "fst (calls es ! j) = GET"
    and "get_reply client j = Inr (pm # pms)"
    and "map_index pm ''id'' = GNumber paymentID"
    and "map_index pm ''type'' = GString paymentType"
  shows "\<exists>orderID.
           calls es ! j = (GET, ''/me/order/'' @ orderID @ ''/availablePaymentMethod'', GNil) \<and>
           calls es ! (j + 1) =
             (POST, ''/me/order/'' @ orderID @ ''/pay'',
              GMap [(''paymentMethod'',
                     GMap [(''id'', GNumber paymentID), (''type'', GString paymentType)])]) \<and>
           length (calls es) = j + 2"
proof -
  from assms(1,2) obtain m :: "string prog" where m: "posts_only m"
    and r: "main getenv NewClient now = run (bind m (pay_order client))"
    by (rule main_split)
  from r assms(3) have "run (bind m (pay_order client)) = (es, h)" by simp
  from payment_starts_at_GET [OF m this assms(4,5)]
  obtain es1 orderID where len: "length (calls es1) = j"
    and es: "es = es1 @ fst (pay_order client orderID j)" by blast
  have "calls es = calls es1 @
      [(GET, ''/me/order/'' @ orderID @ ''/availablePaymentMethod'', GNil),
       (POST, ''/me/order/'' @ orderID @ ''/pay'',
        GMap [(''paymentMethod'',
               GMap [(''id'', GNumber paymentID), (''type'', GString paymentType)])])]"
    by (simp add: es pay_order_pays [OF assms(6,7,8)] split: sum.splits)
  with len show ?thesis
    by (intro exI [of _ orderID]) (simp add: nth_append)
qed

theorem C5_witness:
  "calls (fst (v3_main env_set
          (accept (stub (v3_steps_ok @
             [Object [(''orderId'', GNumber ''77'')],
              Objects [[(''id'', GNumber ''11''), (''type'', GString ''credit'')],
                       [(''id'', GNumber ''22''), (''type'', GString ''ovh-account'')]],
              Object []]))) noon)) ! (11 + 1) =
     (POST, ''/me/order/77/pay'',
      GMap [(''paymentMethod'', GMap [(''id'', GNumber ''11''), (''type'', GString ''credit'')])])"
proof -
  let ?pm = "[(''id'', GNumber ''11''), (''type'', GString ''credit'')]"
  let ?pms = "[[(''id'', GNumber ''22''), (''type'', GString ''ovh-account'')]]"
  let ?c = "stub (v3_steps_ok @ [Object [(''orderId'', GNumber ''77'')], Objects (?pm # ?pms),
                                 Object []])"
  let ?r = "v3_main env_set (accept ?c) noon"
  have d: "v3_main = v1_main \<or> v3_main = v3_main" by simp
  have st: "started env_set (accept ?c) ?c" by (rule started_accept)
  have r: "?r = (fst ?r, snd ?r)" by simp
  have j: "11 < length (calls (fst ?r))" and g: "fst (calls (fst ?r) ! 11) = GET"
    and m: "calls (fst ?r) ! 11 = (GET, ''/me/order/77/availablePaymentMethod'', GNil)"
    unfolding v3_main_started [OF st] by (simp_all add: eval_simps)
  have p: "get_reply ?c 11 = Inr (?pm # ?pms)" by (simp add: stub_def v3_steps_ok_def v1_steps_ok_def)
  have i: "map_index ?pm ''id'' = GNumber ''11''" and t: "map_index ?pm ''type'' = GString ''credit''"
    by (simp_all add: map_index_def)
  from C5_pays_with_first_method [where main = v3_main and client = ?c and now = noon
      and j = 11 and es = "fst ?r" and h = "snd ?r", OF d st r j g p i t]
  obtain orderID where
    1: "calls (fst ?r) ! 11 = (GET, ''/me/order/'' @ orderID @ ''/availablePaymentMethod'', GNil)"
    and 2: "calls (fst ?r) ! (11 + 1) =
      (POST, ''/me/order/'' @ orderID @ ''/pay'',
       GMap [(''paymentMethod'', GMap [(''id'', GNumber ''11''), (''type'', GString ''credit'')])])"
    by blast
  from 1 m have "orderID = ''77''" by simp
  with 2 show ?thesis by simp
qed

text \<open>
  C3, as stated, fails: the programs read \<^verbatim>\<open>itemId\<close> by the unchecked type assertion
  \<^verbatim>\<open>.(json.Number)\<close>. When the AddItem answer delivers the non-numeric value \<^verbatim>\<open>"abc"\<close>, a
  JSON string, the run ends in the panic of that assertion, not in a conversion error; the
  same happens when the digits \<^verbatim>\<open>12345\<close> arrive as a JSON string.
\<close>

theorem C3_counterexample:
  "snd (v1_main env_set
          (accept (stub [Object [(''cartId'', GString ''c-1'')], Object [],
                         Object [(''itemId'', GString ''abc'')]])) noon) =
     Some (PanicAssert ''json.Number'' (GString ''abc'')) \<and>
   snd (v1_main env_set
          (accept (stub [Object [(''cartId'', GString ''c-1'')], Object [],
                         Object [(''itemId'', GString ''12345'')]])) noon) =
     Some (PanicAssert ''json.Number'' (GString ''12345''))"
  unfolding v1_main_started [OF started_accept] by (simp add: eval_simps)

text \<open>
  C3, amended. In both programs, when the AddItem answer delivers \<^verbatim>\<open>itemId\<close> as a number
  token with the text \<open>s\<close>: if \<open>s\<close> is a well-formed 64-bit integer, the run goes on with
  that integer (it is printed, and the next call configures the item of that number; for
  \<^verbatim>\<open>12345\<close> the integer is 12345); if not, the run makes no further call and ends with
  the fatal message of the conversion, which carries the error of \<^verbatim>\<open>strconv.ParseInt\<close>
  and is not the message of a failed call.
\<close>

theorem C3_item_identifier_number_token:
  assumes "main = v1_main \<or> main = v3_main" and "started getenv NewClient client"
    and "post_reply client 0 = Inr cart" and "map_index cart ''cartId'' = GString cartID"
    and "post_reply client 1 = Inr a" and "post_reply client 2 = Inr server"
    and "map_index server ''itemId'' = GNumber s"
  shows
    "(well_formed_int64 s \<longrightarrow>
        Printf ''Added Server to Cart with Item ID: %d\<newline>'' [AInt (int64_value s)]
          \<in> set (fst (main getenv NewClient now)) \<and>
        3 < length (calls (fst (main getenv NewClient now))) \<and>
        fst (snd (calls (fst (main getenv NewClient now)) ! 3)) =
          ''/order/cart/'' @ cartID @ ''/item/'' @ show_int (int64_value s) @ ''/configuration'') \<and>
     (s = ''12345'' \<longrightarrow>
        Printf ''Added Server to Cart with Item ID: %d\<newline>'' [AInt 12345]
          \<in> set (fst (main getenv NewClient now))) \<and>
     (\<not> well_formed_int64 s \<longrightarrow>
        (\<exists>format e.
           (format = ''Error converting itemId to int64: %v'' \<or>
            format = ''Error converting itemId to integer: %v'') \<and>
           (e = ErrSyntax \<or> e = ErrRange) \<and>
           snd (main getenv NewClient now) =
             Some (Fatal format [AErr (NumError ''ParseInt'' s e)])) \<and>
        length (calls (fst (main getenv NewClient now))) = 3)"
proof -
  have wf: ?thesis if w: "well_formed_int64 s" "s = ''12345'' \<longrightarrow> int64_value s = 12345"
  proof -
    from w have p: "ParseInt s = Inr (int64_value s)" by (simp add: ParseInt_Inr)
    note ev = cart_and_item_ok_events [OF assms(3-7) p]
    from main_after_item [OF assms(1,2) ev ev]
    obtain rest os where "fst (main getenv NewClient now) =
      [Call POST ''/order/cart''
         (GMap [(''ovhSubsidiary'', GString ''US''),
                (''description'', GString ''Automated Dedicated Server Order''),
                (''expire'', GString (Format_RFC3339 (AddDate now 0 1 0)))]),
       Printf ''Created Cart with ID: %s\<newline>'' [AStr cartID],
       Call POST (''/order/cart/'' @ cartID @ ''/assign'') GNil,
       Println ''Assigned cart to the logged-in user.'',
       Call POST (''/order/cart/'' @ cartID @ ''/baremetalServers'')
         (GMap [(''duration'', GString ''P1M''), (''planCode'', GString ''24rise01-us''),
                (''pricingMode'', GString ''default''), (''quantity'', GInt 1)]),
       Printf ''Added Server to Cart with Item ID: %d\<newline>'' [AInt (int64_value s)]] @
      Call POST (''/order/cart/'' @ cartID @ ''/item/'' @ show_int (int64_value s) @ ''/configuration'')
        (GMap [(''label'', GString ''dedicated_os''), (''value'', GString os)]) # rest"
      by blast
    with w show ?thesis by simp
  qed
  show ?thesis
  proof (cases "well_formed_int64 s")
    case True
    then show ?thesis using wf int64_value_12345 by blast
  next
    case False
    then obtain e where e: "ParseInt s = Inl e" using ParseInt_Inl [of s] by blast
    then obtain k where k: "e = NumError ''ParseInt'' s k" "k = ErrSyntax \<or> k = ErrRange"
      using ParseInt_error_kind by blast
    have "\<And>f. snd (cart_and_item f now client 0) = Inl (Fatal f [AErr e])"
      by (rule cart_and_item_conversion_error(1) [OF assms(3-7) e])
    from main_cart_and_item_Inl [OF assms(1,2), of now "\<lambda>f. Fatal f [AErr e]", OF this]
    obtain f where f: "f = ''Error converting itemId to int64: %v'' \<or>
        f = ''Error converting itemId to integer: %v''"
      and m: "main getenv NewClient now = (fst (cart_and_item f now client 0), Some (Fatal f [AErr e]))"
      by blast
    have "length (calls (fst (main getenv NewClient now))) = 3"
      by (simp add: m cart_and_item_conversion_error(2) [OF assms(3-7) e])
    moreover have "s \<noteq> ''12345''" using False int64_value_12345 by blast
    ultimately show ?thesis using False f k m by auto
  qed
qed

theorem C3_witness:
  "Printf ''Added Server to Cart with Item ID: %d\<newline>'' [AInt 12345]
     \<in> set (fst (v1_main env_set
          (accept (stub [Object [(''cartId'', GString ''c-1'')], Object [],
                         Object [(''itemId'', GNumber ''12345'')]])) noon)) \<and>
   length (calls (fst (v3_main env_set
          (accept (stub [Object [(''cartId'', GString ''c-1'')], Object [],
                         Object [(''itemId'', GNumber ''1.5'')]])) noon))) = 3"
proof
  let ?c = "stub [Object [(''cartId'', GString ''c-1'')], Object [],
                  Object [(''itemId'', GNumber ''12345'')]]"
  have d: "v1_main = v1_main \<or> v1_main = v3_main" by simp
  have st: "started env_set (accept ?c) ?c" by (rule started_accept)
  have p: "post_reply ?c 0 = Inr [(''cartId'', GString ''c-1'')]"
    "map_index [(''cartId'', GString ''c-1'')] ''cartId'' = GString ''c-1''"
    "post_reply ?c 1 = Inr []" "post_reply ?c 2 = Inr [(''itemId'', GNumber ''12345'')]"
    "map_index [(''itemId'', GNumber ''12345'')] ''itemId'' = GNumber ''12345''"
    by (simp_all add: stub_def map_index_def)
  from C3_item_identifier_number_token [where main = v1_main and client = ?c and now = noon,
      OF d st p, THEN conjunct2, THEN conjunct1]
  show "Printf ''Added Server to Cart with Item ID: %d\<newline>'' [AInt 12345]
     \<in> set (fst (v1_main env_set (accept ?c) noon))"
    by simp
next
  let ?c = "stub [Object [(''cartId'', GString ''c-1'')], Object [],
                  Object [(''itemId'', GNumber ''1.5'')]]"
  have d: "v3_main = v1_main \<or> v3_main = v3_main" by simp
  have st: "started env_set (accept ?c) ?c" by (rule started_accept)
  have p: "post_reply ?c 0 = Inr [(''cartId'', GString ''c-1'')]"
    "map_index [(''cartId'', GString ''c-1'')] ''cartId'' = GString ''c-1''"
    "post_reply ?c 1 = Inr []" "post_reply ?c 2 = Inr [(''itemId'', GNumber ''1.5'')]"
    "map_index [(''itemId'', GNumber ''1.5'')] ''itemId'' = GNumber ''1.5''"
    by (simp_all add: stub_def map_index_def)
  have n: "\<not> well_formed_int64 ''1.5''"
    by (simp add: well_formed_int64_def unsigned_part_def is_digit_def)
  from C3_item_identifier_number_token [where main = v3_main and client = ?c and now = noon,
      OF d st p, THEN conjunct2, THEN conjunct2, THEN mp, OF n]
  show "length (calls (fst (v3_main env_set (accept ?c) noon))) = 3"
    by simp
qed

text \<open>
  C8, as stated, fails for \<^verbatim>\<open>v1main.go\<close>: its single option is written out, and when
  adding it fails the fatal message is \<^verbatim>\<open>Error adding option: %v\<close> with the error of the
  call as only argument; the plan code is not part of the message.
\<close>

theorem C8_counterexample:
  "snd (v1_main env_set (accept (stub (take 6 v1_steps_ok @ [Failed ''boom'']))) noon) =
     Some (Fatal ''Error adding option: %v'' [AErr (ClientError ''boom'')]) \<and>
   \<not> message_names ''vrack-bandwidth-1000-24rise-us''
       (snd (v1_main env_set (accept (stub (take 6 v1_steps_ok @ [Failed ''boom'']))) noon))"
  unfolding v1_main_started [OF started_accept] by (simp add: eval_simps message_names_def)

text \<open>
  C8, amended. When the steps 1 to 4 succeed and the options before the one numbered \<open>k\<close>
  are added: if adding option \<open>k\<close> of the list of \<^verbatim>\<open>v3main.go\<close> fails, that program stops
  after this call with the fatal message \<^verbatim>\<open>Error adding option with planCode %s: %v\<close>,
  whose arguments are the plan code of that option and the error; if adding the one option
  of \<^verbatim>\<open>v1main.go\<close> fails, that program stops after this call with the fatal message
  \<^verbatim>\<open>Error adding option: %v\<close>, whose only argument is the error.
\<close>

theorem C8_option_failure_report:
  assumes "started getenv NewClient client" and "item_added client cartID itemID"
    and "list_all (answered_ok client) [3..<6 + k]" and "post_reply client (6 + k) = Inl e"
  shows
    "(k < length v3_options \<longrightarrow>
        snd (v3_main getenv NewClient now) =
          Some (Fatal ''Error adding option with planCode %s: %v'' [AStr (v3_options ! k), AErr e]) \<and>
        message_names (v3_options ! k) (snd (v3_main getenv NewClient now)) \<and>
        calls (fst (v3_main getenv NewClient now)) =
          [create_call now, assign_call cartID, item_call cartID] @
          map (config_call cartID itemID) v3_configItems @
          map (option_call cartID itemID) (take (k + 1) v3_options)) \<and>
     (k = 0 \<longrightarrow>
        snd (v1_main getenv NewClient now) = Some (Fatal ''Error adding option: %v'' [AErr e]) \<and>
        calls (fst (v1_main getenv NewClient now)) =
          [create_call now, assign_call cartID, item_call cartID] @
          map (config_call cartID itemID) v1_configItems @
          [option_call cartID itemID ''vrack-bandwidth-1000-24rise-us''])"
proof (intro conjI impI)
  from assms(3) have l: "list_all (answered_ok client) [3..<6]"
    by (simp add: list_all_upt)
  from assms(3) have ok: "\<forall>i<k. answered_ok client (6 + i)"
    by (simp add: list_all_upt)
  {
    assume k: "k < length v3_options"
    from v3_through_configuration [OF assms(2) l] obtain pre where
      c: "calls pre = [create_call now, assign_call cartID, item_call cartID] @
                       map (config_call cartID itemID) v3_configItems"
      and w: "v3_workflow now client 0 =
           prepend pre (bind (v3_add_options client cartID itemID v3_options)
                          (\<lambda>_. bind (v3_checkout client cartID) (pay_order client)) 6)"
      by blast
    from v3_add_options_error [OF k ok assms(4)] obtain es where
      es: "v3_add_options client cartID itemID v3_options 6 =
             (es, Inl (Fatal ''Error adding option with planCode %s: %v''
                         [AStr (v3_options ! k), AErr e]))"
      and cs: "calls es = map (option_call cartID itemID) (take (k + 1) v3_options)"
      by blast
    have r: "v3_main getenv NewClient now =
        (pre @ es, Some (Fatal ''Error adding option with planCode %s: %v''
                           [AStr (v3_options ! k), AErr e]))"
      by (simp add: v3_main_started [OF assms(1)] run_eq w outcome_def
          bind_Inl [where m = "v3_add_options client cartID itemID v3_options" and n = 6, OF es])
    show "snd (v3_main getenv NewClient now) =
        Some (Fatal ''Error adding option with planCode %s: %v'' [AStr (v3_options ! k), AErr e])"
      by (simp add: r)
    show "message_names (v3_options ! k) (snd (v3_main getenv NewClient now))"
      by (simp add: r message_names_def)
    show "calls (fst (v3_main getenv NewClient now)) =
          [create_call now, assign_call cartID, item_call cartID] @
          map (config_call cartID itemID) v3_configItems @
          map (option_call cartID itemID) (take (k + 1) v3_options)"
      by (simp add: r c cs)
  }
  {
    assume k: "k = 0"
    from v1_through_configuration [OF assms(2) l] obtain pre where
      c: "calls pre = [create_call now, assign_call cartID, item_call cartID] @
                       map (config_call cartID itemID) v1_configItems"
      and w: "v1_workflow now client 0 =
           prepend pre (bind (v1_add_option client cartID itemID)
                          (\<lambda>_. bind (v1_checkout client cartID) (pay_order client)) 6)"
      by blast
    from assms(4) k have e: "post_reply client 6 = Inl e" by simp
    have r: "v1_main getenv NewClient now =
        (pre @ [Call POST (''/order/cart/'' @ cartID @ ''/baremetalServers/options'')
                  (option_body itemID ''vrack-bandwidth-1000-24rise-us'')],
         Some (Fatal ''Error adding option: %v'' [AErr e]))"
      by (simp add: v1_main_started [OF assms(1)] run_eq w outcome_def
          bind_Inl [where m = "v1_add_option client cartID itemID" and n = 6,
            OF v1_add_option_error [OF e]])
    show "snd (v1_main getenv NewClient now) = Some (Fatal ''Error adding option: %v'' [AErr e])"
      by (simp add: r)
    show "calls (fst (v1_main getenv NewClient now)) =
          [create_call now, assign_call cartID, item_call cartID] @
          map (config_call cartID itemID) v1_configItems @
          [option_call cartID itemID ''vrack-bandwidth-1000-24rise-us'']"
      by (simp add: r c option_call_def option_body_def)
  }
qed

theorem C8_witness:
  "snd (v3_main env_set (accept (stub (take 8 v3_steps_ok @ [Failed ''boom'']))) noon) =
     Some (Fatal ''Error adding option with planCode %s: %v''
             [AStr ''ram-32g-ecc-3200-24rise-us'', AErr (ClientError ''boom'')]) \<and>
   snd (v1_main env_set (accept (stub (take 6 v3_steps_ok @ [Failed ''down'']))) noon) =
     Some (Fatal ''Error adding option: %v'' [AErr (ClientError ''down'')])"
proof
  let ?c = "stub (take 8 v3_steps_ok @ [Failed ''boom''])"
  have st: "started env_set (accept ?c) ?c" by (rule started_accept)
  have i: "item_added ?c ''c-1'' 42"
    by (simp add: item_added_def received_cartId_def received_itemId_def answered_ok_def
        eval_simps)
  have l: "list_all (answered_ok ?c) [3..<6 + 2]"
    by (simp add: answered_ok_def stub_def v3_steps_ok_def v1_steps_ok_def upt_rec)
  have e: "post_reply ?c (6 + 2) = Inl (ClientError ''boom'')"
    by (simp add: stub_def v3_steps_ok_def v1_steps_ok_def)
  have k: "2 < length v3_options" by (simp add: v3_options_def)
  from C8_option_failure_report [where client = ?c and k = 2 and now = noon, OF st i l e,
      THEN conjunct1, THEN mp, OF k, THEN conjunct1]
  show "snd (v3_main env_set (accept ?c) noon) =
     Some (Fatal ''Error adding option with planCode %s: %v''
             [AStr ''ram-32g-ecc-3200-24rise-us'', AErr (ClientError ''boom'')])"
    by (simp add: v3_options_def)
next
  let ?c = "stub (take 6 v3_steps_ok @ [Failed ''down''])"
  have st: "started env_set (accept ?c) ?c" by (rule started_accept)
  have i: "item_added ?c ''c-1'' 42"
    by (simp add: item_added_def received_cartId_def received_itemId_def answered_ok_def
        eval_simps)
  have l: "list_all (answered_ok ?c) [3..<6 + 0]"
    by (simp add: answered_ok_def stub_def v3_steps_ok_def v1_steps_ok_def upt_rec)
  have e: "post_reply ?c (6 + 0) = Inl (ClientError ''down'')"
    by (simp add: stub_def v3_steps_ok_def v1_steps_ok_def)
  from C8_option_failure_report [where client = ?c and k = 0 and now = noon, OF st i l e,
      THEN conjunct2, THEN mp, OF refl, THEN conjunct1]
  show "snd (v1_main env_set (accept ?c) noon) =
     Some (Fatal ''Error adding option: %v'' [AErr (ClientError ''down'')])" .
qed

end
